theory Spec2Isabelle
  imports Main "HOL-Library.Sublist" "HOL-Library.Word"
begin

unbundle bit_operations_syntax

section \<open>Errors\<close>

text \<open>
  Go errors as values.  The plugin runner builds its errors with the \<open>fault\<close> package:
  \<open>fault.New(msg)\<close> is \<open>New msg\<close>, \<open>fault.Wrap(err, fmsg.With(msg))\<close> is
  \<open>Wrap err msg\<close>, \<open>fault.Wrap(err, fctx.With(ctx))\<close> is \<open>WithCtx err\<close>.
  Errors produced by the Go standard library (zip, os, io, json, exec) are \<open>LibErr text\<close>.
\<close>

datatype error =
    New string
  | Wrap error string
  | WithCtx error
  | LibErr string

text \<open>The text of \<open>err.Error()\<close>: a wrapped error prints its message before its cause.\<close>

fun Error :: "error \<Rightarrow> string" where
  "Error (New m) = m"
| "Error (Wrap e m) = m @ '': '' @ Error e"
| "Error (WithCtx e) = Error e"
| "Error (LibErr m) = m"

section \<open>Path handling of \<open>path/filepath\<close> (Unix, separator \<open>/\<close>)\<close>

text \<open>
  \<open>strings.Split(s, "/")\<close> and \<open>strings.Join(elems, "/")\<close>.
\<close>

fun split_sep :: "string \<Rightarrow> string list" where
  "split_sep [] = [[]]"
| "split_sep (c # cs) =
     (if c = CHR ''/'' then [] # split_sep cs
      else (case split_sep cs of [] \<Rightarrow> [[c]] | w # ws \<Rightarrow> (c # w) # ws))"

fun join_sep :: "string list \<Rightarrow> string" where
  "join_sep [] = []"
| "join_sep [x] = x"
| "join_sep (x # y # zs) = x @ ''/'' @ join_sep (y # zs)"

text \<open>
  \<open>filepath.Clean\<close>: the lexical normalisation of a path.  The output buffer of the Go
  function is kept as a stack of path elements (top first).  An empty element and \<open>.\<close>
  are dropped; \<open>..\<close> removes the element before it when there is one that is not itself
  \<open>..\<close>, is dropped at the root of a rooted path, and is kept at the start of a relative
  path; any other element is appended.
\<close>

fun clean_step :: "bool \<Rightarrow> string list \<Rightarrow> string \<Rightarrow> string list" where
  "clean_step rooted st c =
     (if c = [] \<or> c = ''.'' then st
      else if c = ''..'' then
        (case st of
           [] \<Rightarrow> (if rooted then [] else [''..''])
         | t # ts \<Rightarrow> (if t = ''..'' \<and> \<not> rooted then ''..'' # st else ts))
      else c # st)"

definition clean_elems :: "bool \<Rightarrow> string list \<Rightarrow> string list" where
  "clean_elems rooted cs = rev (foldl (clean_step rooted) [] cs)"

definition filepath_Clean :: "string \<Rightarrow> string" where
  "filepath_Clean path =
     (if path = [] then ''.''
      else
        let rooted = (hd path = CHR ''/'');
            body = join_sep (clean_elems rooted (split_sep path))
        in if rooted then CHR ''/'' # body
           else if body = [] then ''.'' else body)"

text \<open>\<open>filepath.Join\<close>: leading empty elements are ignored, the rest is joined and cleaned.\<close>

fun filepath_Join :: "string list \<Rightarrow> string" where
  "filepath_Join [] = []"
| "filepath_Join (e # es) =
     (if e \<noteq> [] then filepath_Clean (join_sep (e # es)) else filepath_Join es)"

text \<open>
  \<open>filepath.Base\<close>: the last element of the path, after removing trailing separators;
  \<open>.\<close> for the empty path and \<open>/\<close> for a path of separators only.
\<close>

definition filepath_Base :: "string \<Rightarrow> string" where
  "filepath_Base path =
     (if path = [] then ''.''
      else
        let stripped = rev (dropWhile (\<lambda>c. c = CHR ''/'') (rev path));
            elem = rev (takeWhile (\<lambda>c. c \<noteq> CHR ''/'') (rev stripped))
        in if elem = [] then ''/'' else elem)"

text \<open>\<open>filepath.Dir\<close>: everything up to and including the last separator, cleaned.\<close>

definition filepath_Dir :: "string \<Rightarrow> string" where
  "filepath_Dir path = filepath_Clean (rev (dropWhile (\<lambda>c. c \<noteq> CHR ''/'') (rev path)))"

text \<open>\<open>joinWithin\<close> of the subprocess runner: the zip-slip guard.\<close>

definition joinWithin :: "string \<Rightarrow> string \<Rightarrow> error + string" where
  "joinWithin base name =
     (let clean = filepath_Join [base, name]
      in if \<not> prefix (base @ ''/'') clean \<and> clean \<noteq> base
         then Inl (New ''archive entry escapes extraction directory'')
         else Inr clean)"

section \<open>Archives and manifests\<close>

text \<open>
  An entry of a zip archive as \<open>archive/zip\<close> presents it: the stored name, the file mode
  (\<open>FileInfo().Mode()\<close>, a 32-bit \<open>fs.FileMode\<close>) and what opening and reading the entry
  yields.  \<open>file.Open()\<close> can fail (\<open>OpenError\<close>); reading can fail after some bytes
  (\<open>ReadError\<close>, a checksum or decompression error); otherwise the entry has its bytes.
\<close>

datatype zip_body =
    OpenError string
  | ReadError string string
  | Bytes string

record zip_file =
  Name :: string
  Mode :: "32 word"
  Body :: zip_body

text \<open>\<open>fs.ModeDir\<close> is the top bit of the mode; \<open>IsDir\<close> tests it.\<close>

definition ModeDir :: "32 word" where
  "ModeDir = push_bit 31 1"

definition IsDir :: "zip_file \<Rightarrow> bool" where
  "IsDir f = (Mode f AND ModeDir \<noteq> 0)"

text \<open>
  The plugin binary \<open>bin []byte\<close> is represented by what \<open>zip.NewReader\<close> makes of it:
  bytes that are not a zip container, or the entries in archive order.
\<close>

datatype archive =
    NotZip string
  | Zip "zip_file list"

definition zip_NewReader :: "archive \<Rightarrow> error + zip_file list" where
  "zip_NewReader bin = (case bin of NotZip m \<Rightarrow> Inl (LibErr m) | Zip fs \<Rightarrow> Inr fs)"

text \<open>
  The manifest.  \<open>plugin.Manifest\<close> is declared outside the files at hand; the runner reads
  only its \<open>ID\<close>.  Decoding (\<open>json.Unmarshal\<close>) is a parameter \<open>dec\<close> of the model: it
  yields the manifest or fails.
\<close>

type_synonym plugin_id = string

record manifest =
  ID :: plugin_id
  Title :: string

type_synonym manifest_decoder = "string \<Rightarrow> manifest option"

text \<open>\<open>readSDXManifest\<close>: the loop returns at the first entry whose base name matches.\<close>

fun readSDXManifest_loop :: "zip_file list \<Rightarrow> error + string" where
  "readSDXManifest_loop [] = Inl (New ''manifest.json not found in plugin archive'')"
| "readSDXManifest_loop (f # fs) =
     (if filepath_Base (Name f) \<noteq> ''manifest.json'' then readSDXManifest_loop fs
      else (case Body f of
              OpenError m \<Rightarrow> Inl (Wrap (LibErr m) ''failed to open manifest'')
            | ReadError part m \<Rightarrow> Inl (Wrap (LibErr m) ''failed to read manifest'')
            | Bytes d \<Rightarrow> Inr d))"

definition readSDXManifest :: "archive \<Rightarrow> error + string" where
  "readSDXManifest bin =
     (case zip_NewReader bin of
        Inl e \<Rightarrow> Inl (Wrap e ''failed to open archive'')
      | Inr fs \<Rightarrow> readSDXManifest_loop fs)"

definition is_main :: "string \<Rightarrow> bool" where
  "is_main name = (filepath_Base name = ''main'' \<or> filepath_Base name = ''main.exe'')"

fun ensureExecutablePresent_loop :: "zip_file list \<Rightarrow> error option" where
  "ensureExecutablePresent_loop [] = Some (New ''plugin archive missing main executable'')"
| "ensureExecutablePresent_loop (f # fs) =
     (if is_main (Name f) then None else ensureExecutablePresent_loop fs)"

definition ensureExecutablePresent :: "archive \<Rightarrow> error option" where
  "ensureExecutablePresent bin =
     (case zip_NewReader bin of
        Inl e \<Rightarrow> Some (Wrap e ''failed to open archive'')
      | Inr fs \<Rightarrow> ensureExecutablePresent_loop fs)"

text \<open>\<open>sdxRunner.Validate\<close>.\<close>

definition Validate :: "manifest_decoder \<Rightarrow> archive \<Rightarrow> error + manifest" where
  "Validate dec bin =
     (case readSDXManifest bin of
        Inl e \<Rightarrow> Inl (Wrap e ''failed to read manifest'')
      | Inr manifestBytes \<Rightarrow>
          (case dec manifestBytes of
             None \<Rightarrow> Inl (Wrap (LibErr ''json: cannot unmarshal'') ''failed to decode manifest'')
           | Some m \<Rightarrow>
               (case ensureExecutablePresent bin of
                  Some e \<Rightarrow> Inl (Wrap e ''plugin binary missing'')
                | None \<Rightarrow> Inr m)))"

section \<open>The file system\<close>

text \<open>
  The part of the file system the runner touches: a map from paths to directories and
  regular files (mode and contents).  The root and the current directory always exist.
\<close>

datatype node =
    DirNode
  | FileNode "32 word" string

type_synonym filesys = "string \<rightharpoonup> node"

definition is_dir :: "filesys \<Rightarrow> string \<Rightarrow> bool" where
  "is_dir fs p = (p = ''/'' \<or> p = ''.'' \<or> fs p = Some DirNode)"

text \<open>The proper ancestors of a path: its prefixes that end before a separator.\<close>

definition ancestors :: "string \<Rightarrow> string list" where
  "ancestors p = map (\<lambda>i. take i p) (filter (\<lambda>i. p ! i = CHR ''/'') [1..<length p])"

text \<open>
  \<open>os.MkdirAll\<close>: creates the directory and every missing parent, shortest first; fails
  at a path that exists and is not a directory, keeping what it created before.
\<close>

fun mkdir_chain :: "filesys \<Rightarrow> string list \<Rightarrow> filesys \<times> error option" where
  "mkdir_chain fs [] = (fs, None)"
| "mkdir_chain fs (d # ds) =
     (if is_dir fs d then mkdir_chain fs ds
      else (case fs d of
              None \<Rightarrow> mkdir_chain (fs(d \<mapsto> DirNode)) ds
            | Some n \<Rightarrow> (fs, Some (LibErr (''mkdir '' @ d @ '': not a directory'')))))"

definition os_MkdirAll :: "filesys \<Rightarrow> string \<Rightarrow> filesys \<times> error option" where
  "os_MkdirAll fs p = mkdir_chain fs (ancestors p @ [p])"

text \<open>
  \<open>os.MkdirTemp("", "storyden-sdx-")\<close>: \<open>tmp\<close> is the fresh name the call settles on.
  The directory is created when the name is free and its parents are directories.
\<close>

definition os_MkdirTemp :: "filesys \<Rightarrow> string \<Rightarrow> filesys \<times> (error + string)" where
  "os_MkdirTemp fs tmp =
     (if fs tmp = None \<and> tmp \<noteq> [] \<and> \<not> is_dir fs tmp \<and> list_all (is_dir fs) (ancestors tmp)
      then (fs(tmp \<mapsto> DirNode), Inr tmp)
      else (fs, Inl (LibErr (''mkdir '' @ tmp @ '': cannot create''))))"

text \<open>
  \<open>os.OpenFile(path, O_WRONLY|O_CREATE|O_TRUNC, mode)\<close>: fails on a directory and when a
  parent is not a directory; truncates an existing file (keeping its mode) and creates a
  missing one with the given mode.
\<close>

definition os_OpenFile :: "filesys \<Rightarrow> string \<Rightarrow> 32 word \<Rightarrow> filesys \<times> error option" where
  "os_OpenFile fs p mode =
     (if is_dir fs p then (fs, Some (LibErr (''open '' @ p @ '': is a directory'')))
      else if \<not> list_all (is_dir fs) (ancestors p)
      then (fs, Some (LibErr (''open '' @ p @ '': no such file or directory'')))
      else (case fs p of
              Some (FileNode m c) \<Rightarrow> (fs(p \<mapsto> FileNode m []), None)
            | _ \<Rightarrow> (fs(p \<mapsto> FileNode mode []), None)))"

text \<open>
  \<open>io.Copy(out, rc)\<close> into the file just opened: the bytes read before an error are
  written.
\<close>

definition write_file :: "filesys \<Rightarrow> string \<Rightarrow> string \<Rightarrow> filesys" where
  "write_file fs p d =
     (case fs p of Some (FileNode m c) \<Rightarrow> fs(p \<mapsto> FileNode m (c @ d)) | _ \<Rightarrow> fs)"

definition io_Copy :: "filesys \<Rightarrow> string \<Rightarrow> zip_body \<Rightarrow> filesys \<times> error option" where
  "io_Copy fs p b =
     (case b of
        OpenError m \<Rightarrow> (fs, Some (LibErr m))
      | ReadError part m \<Rightarrow> (write_file fs p part, Some (LibErr m))
      | Bytes d \<Rightarrow> (write_file fs p d, None))"

text \<open>\<open>os.RemoveAll\<close>: removes the path and everything below it.\<close>

definition os_RemoveAll :: "filesys \<Rightarrow> string \<Rightarrow> filesys" where
  "os_RemoveAll fs p = (\<lambda>q. if q = p \<or> prefix (p @ ''/'') q then None else fs q)"

section \<open>Archive extraction\<close>

text \<open>
  The body of the loop of \<open>extractSDXArchive\<close> for one entry.  The result is the file
  system after the step and either the error the function returns with or the new value
  of \<open>binaryPath\<close>.  The permission masks are octal 111 (\<open>0x49\<close>) and octal 755
  (\<open>0x1ED\<close>).
\<close>

definition extract_entry ::
  "filesys \<Rightarrow> string \<Rightarrow> string \<Rightarrow> zip_file \<Rightarrow> filesys \<times> (error + string)" where
  "extract_entry fs workdir binaryPath f =
     (case joinWithin workdir (Name f) of
        Inl e \<Rightarrow> (fs, Inl e)
      | Inr targetPath \<Rightarrow>
          if IsDir f then
            (case os_MkdirAll fs targetPath of
               (fs1, Some e) \<Rightarrow> (fs1, Inl (Wrap e ''failed to create dir''))
             | (fs1, None) \<Rightarrow> (fs1, Inr binaryPath))
          else
            (case os_MkdirAll fs (filepath_Dir targetPath) of
               (fs1, Some e) \<Rightarrow> (fs1, Inl (Wrap e ''failed to create parent dir''))
             | (fs1, None) \<Rightarrow>
                 (case Body f of
                    OpenError m \<Rightarrow> (fs1, Inl (Wrap (LibErr m) ''failed to open file in archive''))
                  | _ \<Rightarrow>
                      let mode = (if Mode f AND 0x49 = 0 \<and> is_main (Name f)
                                  then Mode f OR 0x1ED else Mode f)
                      in (case os_OpenFile fs1 targetPath mode of
                            (fs2, Some e) \<Rightarrow> (fs2, Inl (Wrap e ''failed to create extracted file''))
                          | (fs2, None) \<Rightarrow>
                              (case io_Copy fs2 targetPath (Body f) of
                                 (fs3, Some e) \<Rightarrow>
                                   (fs3, Inl (Wrap e ''failed to copy archive contents''))
                               | (fs3, None) \<Rightarrow>
                                   (fs3, Inr (if is_main (Name f) then targetPath
                                              else binaryPath)))))))"

fun extract_loop ::
  "filesys \<Rightarrow> string \<Rightarrow> string \<Rightarrow> zip_file list \<Rightarrow> filesys \<times> (error + string)" where
  "extract_loop fs workdir binaryPath [] = (fs, Inr binaryPath)"
| "extract_loop fs workdir binaryPath (f # files) =
     (case extract_entry fs workdir binaryPath f of
        (fs1, Inl e) \<Rightarrow> (fs1, Inl e)
      | (fs1, Inr binaryPath1) \<Rightarrow> extract_loop fs1 workdir binaryPath1 files)"

text \<open>
  \<open>extractSDXArchive\<close>: the result is the file system afterwards and either the error or
  the pair of working directory and path of the executable.
\<close>

definition extractSDXArchive ::
  "filesys \<Rightarrow> string \<Rightarrow> archive \<Rightarrow> filesys \<times> (error + string \<times> string)" where
  "extractSDXArchive fs tmp bin =
     (case zip_NewReader bin of
        Inl e \<Rightarrow> (fs, Inl (Wrap e ''failed to open archive''))
      | Inr files \<Rightarrow>
          (case os_MkdirTemp fs tmp of
             (fs1, Inl e) \<Rightarrow> (fs1, Inl (Wrap e ''failed to create temp dir''))
           | (fs1, Inr workdir) \<Rightarrow>
               (case extract_loop fs1 workdir [] files of
                  (fs2, Inl e) \<Rightarrow> (fs2, Inl e)
                | (fs2, Inr binaryPath) \<Rightarrow>
                    if binaryPath = []
                    then (fs2, Inl (New ''extracted archive missing main executable''))
                    else (fs2, Inr (workdir, binaryPath)))))"

section \<open>Sessions and the runner's registry\<close>

text \<open>The enumerations of the plugin resource: desired and reported state.\<close>

datatype active_state =
    ActiveStateActive
  | ActiveStateInactive
  | ActiveStateOther string

datatype reported_state =
    ReportedStateActive
  | ReportedStateInactive
  | ReportedStateError

datatype run_type =
    RunTypeBackground
  | RunTypeOther string

text \<open>
  Correlation identifiers (\<open>xid.ID\<close>), requests and responses of the RPC protocol.  A
  pending command holds the request and its private response channel; channels are
  named by numbers and their contents (the responses sent on them, oldest first) are
  kept with the session.
\<close>

type_synonym xid = string

record rpc_request =
  Method :: string
  Params :: string

record rpc_response =
  RespID :: string
  Result :: string

record pendingCommand =
  request :: rpc_request
  respch :: nat

text \<open>
  A session: the fields of \<open>PluginSession\<close> that the runner uses, followed by those of
  \<open>sdxSession\<close>.  \<open>sctx\<close> is the session's context: \<open>None\<close> while nil, otherwise
  whether it has been cancelled.  \<open>cmd\<close> and \<open>stdin\<close> say whether the fields are
  non-nil.
\<close>

record session =
  sid :: plugin_id
  runType :: run_type
  reportedState :: reported_state
  stateNote :: string
  sbin :: archive
  smanifest :: manifest
  pendingCommands :: "xid \<rightharpoonup> pendingCommand"
  channels :: "nat \<Rightarrow> rpc_response list"
  sctx :: "bool option"
  workdir :: string
  cmd :: bool
  stdin :: bool
  stopping :: bool

text \<open>
  Modelled from the spec: \<open>PluginSession.setState\<close> is declared outside the files at
  hand.  The spec gives a session an observed state "with an associated error note when
  errored"; \<open>setState\<close> stores the state and the note.
\<close>

definition setState :: "reported_state \<Rightarrow> string \<Rightarrow> session \<Rightarrow> session" where
  "setState st note s = s\<lparr>reportedState := st, stateNote := note\<rparr>"

text \<open>
  Modelled from the spec: \<open>PluginSession.stop\<close> is declared outside the files at hand;
  the runner only calls it.  It acts on the session it is called on and is a parameter
  \<open>stop\<close> of the operations that call it.
\<close>

type_synonym session_stop = "session \<Rightarrow> session"

text \<open>
  What the runner lives in: its registry (\<open>sessions\<close>, an \<open>xsync.Map\<close> from plugin
  identifier to session), the file system, and the warnings and errors written to its
  logger.
\<close>

datatype log_entry =
    LogWarn string error
  | LogError string error

record world =
  sessions :: "plugin_id \<rightharpoonup> session"
  files :: filesys
  logs :: "log_entry list"

definition put_session :: "plugin_id \<Rightarrow> session \<Rightarrow> world \<Rightarrow> world" where
  "put_session k s w = w\<lparr>sessions := (sessions w)(k \<mapsto> s)\<rparr>"

section \<open>The subprocess runner\<close>

text \<open>\<open>sdxRunner.Load\<close>.\<close>

definition Load :: "manifest_decoder \<Rightarrow> world \<Rightarrow> archive \<Rightarrow> world \<times> (error + session)" where
  "Load dec w bin =
     (case Validate dec bin of
        Inl e \<Rightarrow> (w, Inl (WithCtx e))
      | Inr m \<Rightarrow>
          let sess = \<lparr>sid = ID m, runType = RunTypeBackground,
                      reportedState = ReportedStateInactive, stateNote = [],
                      sbin = bin, smanifest = m,
                      pendingCommands = Map.empty, channels = (\<lambda>c. []),
                      sctx = None, workdir = [], cmd = False, stdin = False,
                      stopping = False\<rparr>
          in (put_session (ID m) sess w, Inr sess))"

text \<open>\<open>sdxRunner.GetSession\<close>.\<close>

definition GetSession :: "world \<Rightarrow> plugin_id \<Rightarrow> error + session" where
  "GetSession w k =
     (case sessions w k of
        None \<Rightarrow> Inl (New ''plugin session not found'')
      | Some sess \<Rightarrow> Inr sess)"

text \<open>
  \<open>sdxRunner.StopPlugin\<close>.  The environment of one call: whether the process has already
  exited (\<open>cmd.ProcessState\<close>), what \<open>cmd.Process.Kill()\<close> returns, and which context is
  done first in the final \<open>select\<close> (\<open>None\<close>: the session's; otherwise the caller's,
  with the text of \<open>ctx.Err()\<close>).
\<close>

datatype kill_result =
    KillOk
  | KillProcessDone
  | KillFailed string

record stop_env =
  proc_exited :: bool
  kill :: kill_result
  caller_done :: "string option"

definition StopPlugin ::
  "session_stop \<Rightarrow> stop_env \<Rightarrow> world \<Rightarrow> plugin_id \<Rightarrow> world \<times> error option" where
  "StopPlugin stop E w k =
     (case sessions w k of
        None \<Rightarrow> (w, Some (New ''plugin session not found''))
      | Some sess \<Rightarrow>
          if \<not> cmd sess then (put_session k (stop sess) w, None)
          else
            let sess1 = sess\<lparr>stopping := True\<rparr>
            in (case (if proc_exited E then KillOk else kill E) of
                  KillFailed m \<Rightarrow>
                    (put_session k sess1 w,
                     Some (Wrap (LibErr m) ''failed to stop plugin process''))
                | _ \<Rightarrow>
                    let sess2 = stop sess1
                    in if sctx sess2 \<noteq> None
                       then (case caller_done E of
                               None \<Rightarrow> (put_session k sess2 w, None)
                             | Some m \<Rightarrow> (put_session k sess2 w, Some (LibErr m)))
                       else (put_session k sess2 w, None)))"

text \<open>
  \<open>sdxRunner.Unload\<close>.  \<open>sess\<close> is a pointer: after \<open>StopPlugin\<close> it is read again from
  the registry, where \<open>StopPlugin\<close> left the same object.
\<close>

definition Unload ::
  "session_stop \<Rightarrow> stop_env \<Rightarrow> world \<Rightarrow> plugin_id \<Rightarrow> world \<times> error option" where
  "Unload stop E w k =
     (case sessions w k of
        None \<Rightarrow> (w, Some (New ''plugin session not found''))
      | Some sess0 \<Rightarrow>
          (case StopPlugin stop E w k of
             (w1, r) \<Rightarrow>
               let w2 = (case r of
                           None \<Rightarrow> w1
                         | Some e \<Rightarrow>
                             w1\<lparr>logs := logs w1
                                   @ [LogWarn ''failed to stop plugin during unload'' e]\<rparr>);
                   sess = (case sessions w2 k of None \<Rightarrow> sess0 | Some s \<Rightarrow> s);
                   w3 = w2\<lparr>sessions := (sessions w2)(k := None)\<rparr>
               in if workdir sess \<noteq> []
                  then (w3\<lparr>files := os_RemoveAll (files w3) (workdir sess)\<rparr>, None)
                  else (w3, None)))"

section \<open>Running a plugin process\<close>

text \<open>
  The decoders the dispatch loop uses are parameters: \<open>json.Unmarshal\<close> into an
  \<open>RPCResponse\<close> and \<open>xid.FromString\<close>.
\<close>

record codec =
  decode_response :: "string \<Rightarrow> rpc_response option"
  xid_FromString :: "string \<Rightarrow> xid option"

text \<open>
  The error channel \<open>errCh\<close> has room for one value: \<open>None\<close> is the empty channel,
  \<open>Some v\<close> holds \<open>v\<close>, and the value \<open>None\<close> is the nil error.  \<open>sendErr\<close> does not
  block: a value sent to a full channel is dropped.
\<close>

type_synonym err_chan = "error option option"

definition sendErr :: "err_chan \<Rightarrow> error option \<Rightarrow> err_chan" where
  "sendErr ch e = (case ch of None \<Rightarrow> Some e | Some v \<Rightarrow> Some v)"

text \<open>
  The state of a running \<open>runProcess\<close>: the session, the error channel and what has
  been logged at error level.
\<close>

record run_state =
  sess :: session
  errCh :: err_chan
  logged :: "log_entry list"

definition cancelled :: "session \<Rightarrow> bool" where
  "cancelled s = (sctx s = Some True)"

definition handleError :: "error \<Rightarrow> run_state \<Rightarrow> run_state" where
  "handleError e st =
     st\<lparr>sess := setState ReportedStateError (Error e) (sess st),
        logged := logged st @ [LogError ''plugin error'' e]\<rparr>"

text \<open>
  The exit watcher: \<open>cmd.Wait()\<close> has returned \<open>waitErr\<close> (\<open>None\<close> for nil).
\<close>

definition exit_watcher :: "string option \<Rightarrow> run_state \<Rightarrow> run_state" where
  "exit_watcher waitErr st =
     (if stopping (sess st) then st\<lparr>errCh := sendErr (errCh st) None\<rparr>
      else (case waitErr of
              Some m \<Rightarrow>
                st\<lparr>errCh := sendErr (errCh st) (Some (Wrap (LibErr m) ''process exited''))\<rparr>
            | None \<Rightarrow>
                st\<lparr>errCh := sendErr (errCh st) (Some (New ''plugin exited unexpectedly''))\<rparr>))"

text \<open>
  The writer pump and the output pump report a failure only while the context is not
  cancelled.
\<close>

definition pump_failed :: "string \<Rightarrow> string \<Rightarrow> run_state \<Rightarrow> run_state" where
  "pump_failed what m st =
     (if cancelled (sess st) then st
      else st\<lparr>errCh := sendErr (errCh st) (Some (Wrap (LibErr m) what))\<rparr>)"

text \<open>
  One line received from \<open>outchan\<close>.  \<open>deliver\<close> is the branch the scheduler prefers in
  the inner \<open>select\<close>; the branch on \<open>ctx.Done()\<close> can only be taken once the context is
  cancelled.
\<close>

definition handle_output :: "codec \<Rightarrow> string \<Rightarrow> bool \<Rightarrow> run_state \<Rightarrow> run_state" where
  "handle_output C output deliver st =
     (if output = [] then st
      else if hd output \<noteq> CHR ''{'' then st
      else
        (case decode_response C output of
           None \<Rightarrow>
             handleError (Wrap (LibErr ''json: cannot unmarshal'') ''failed to decode response'') st
         | Some response \<Rightarrow>
             (case xid_FromString C (RespID response) of
                None \<Rightarrow>
                  handleError (Wrap (LibErr ''xid: invalid ID'') ''failed to parse response ID'') st
              | Some ident \<Rightarrow>
                  (case pendingCommands (sess st) ident of
                     None \<Rightarrow> handleError (New ''received response for unknown command'') st
                   | Some pending \<Rightarrow>
                       let s1 = (sess st)\<lparr>pendingCommands :=
                                             (pendingCommands (sess st))(ident := None)\<rparr>
                       in if deliver \<or> \<not> cancelled s1
                          then st\<lparr>sess := s1\<lparr>channels :=
                                    (channels s1)(respch pending :=
                                       channels s1 (respch pending) @ [response])\<rparr>\<rparr>
                          else st\<lparr>sess := s1\<rparr>))))"

text \<open>
  What happens around the dispatch loop, in the order it happens.  The first three are
  the branches of the loop's \<open>select\<close> (a branch that is not ready is not taken: the
  event is skipped); the others are the steps of the goroutines beside it, of
  \<open>StopPlugin\<close> (which sets the flag \<open>stopping\<close>) and of the cancellation of the
  context.
\<close>

datatype event =
    CtxDone
  | ErrRecv
  | OutRecv "string option" bool
  | WriteFailed string
  | StdoutFailed string
  | ProcExited "string option"
  | StopRequested
  | CtxCancelled

datatype loop_result =
    Running
  | Returned "error option"

fun dispatch_loop :: "codec \<Rightarrow> event list \<Rightarrow> run_state \<Rightarrow> run_state \<times> loop_result" where
  "dispatch_loop C [] st = (st, Running)"
| "dispatch_loop C (CtxDone # evs) st =
     (if cancelled (sess st)
      then (st\<lparr>sess := setState ReportedStateInactive [] (sess st)\<rparr>,
            Returned (Some (LibErr ''context canceled'')))
      else dispatch_loop C evs st)"
| "dispatch_loop C (ErrRecv # evs) st =
     (case errCh st of
        None \<Rightarrow> dispatch_loop C evs st
      | Some None \<Rightarrow>
          (st\<lparr>sess := setState ReportedStateInactive [] (sess st), errCh := None\<rparr>,
           Returned None)
      | Some (Some e) \<Rightarrow> (handleError e (st\<lparr>errCh := None\<rparr>), Returned (Some e)))"
| "dispatch_loop C (OutRecv None deliver # evs) st = (st, Returned None)"
| "dispatch_loop C (OutRecv (Some output) deliver # evs) st =
     dispatch_loop C evs (handle_output C output deliver st)"
| "dispatch_loop C (WriteFailed m # evs) st =
     dispatch_loop C evs (pump_failed ''failed to write command'' m st)"
| "dispatch_loop C (StdoutFailed m # evs) st =
     dispatch_loop C evs (pump_failed ''failed to read stdout'' m st)"
| "dispatch_loop C (ProcExited waitErr # evs) st =
     dispatch_loop C evs (exit_watcher waitErr st)"
| "dispatch_loop C (StopRequested # evs) st =
     dispatch_loop C evs (st\<lparr>sess := (sess st)\<lparr>stopping := True\<rparr>\<rparr>)"
| "dispatch_loop C (CtxCancelled # evs) st =
     dispatch_loop C evs (st\<lparr>sess := (sess st)\<lparr>sctx := Some True\<rparr>\<rparr>)"

text \<open>
  The environment of one \<open>runProcess\<close>: the name \<open>os.MkdirTemp\<close> settles on, the results
  of the three pipe calls and of \<open>cmd.Start()\<close> (\<open>None\<close> for nil), and the events around
  the dispatch loop.
\<close>

record proc_env =
  tmpname :: string
  stdoutPipe :: "string option"
  stderrPipe :: "string option"
  stdinPipe :: "string option"
  start :: "string option"
  events :: "event list"

text \<open>The deferred cleanup of \<open>runProcess\<close>.\<close>

definition cleanup :: "filesys \<Rightarrow> session \<Rightarrow> filesys \<times> session" where
  "cleanup fs s =
     ((if workdir s \<noteq> [] then os_RemoveAll fs (workdir s) else fs),
      s\<lparr>workdir := [], cmd := False, stdin := False, sctx := Some True\<rparr>)"

text \<open>
  \<open>sdxSession.runProcess\<close>: the file system and the session afterwards, what was logged,
  and whether the function has returned (with which error) or is still in its loop when
  the events end.
\<close>

definition runProcess ::
  "codec \<Rightarrow> proc_env \<Rightarrow> filesys \<Rightarrow> session
     \<Rightarrow> filesys \<times> session \<times> log_entry list \<times> loop_result" where
  "runProcess C P fs s =
     (if reportedState s = ReportedStateActive
      then (fs, s, [], Returned (Some (New ''plugin is already running'')))
      else if runType s \<noteq> RunTypeBackground
      then (fs, s, [], Returned (Some (New ''only background plugins can be started'')))
      else
        let s1 = s\<lparr>sctx := Some False\<rparr>;
            cancel = (\<lambda>x. x\<lparr>sctx := Some True\<rparr>)
        in (case extractSDXArchive fs (tmpname P) (sbin s1) of
              (fs1, Inl e) \<Rightarrow>
                (fs1, cancel s1, [], Returned (Some (Wrap e ''failed to extract plugin'')))
            | (fs1, Inr (wd, binaryPath)) \<Rightarrow>
                (case stdoutPipe P of
                   Some m \<Rightarrow>
                     (fs1, cancel s1, [],
                      Returned (Some (Wrap (LibErr m) ''failed to get stdout'')))
                 | None \<Rightarrow>
                (case stderrPipe P of
                   Some m \<Rightarrow>
                     (fs1, cancel s1, [],
                      Returned (Some (Wrap (LibErr m) ''failed to get stderr'')))
                 | None \<Rightarrow>
                (case stdinPipe P of
                   Some m \<Rightarrow>
                     (fs1, cancel s1, [],
                      Returned (Some (Wrap (LibErr m) ''failed to get stdin'')))
                 | None \<Rightarrow>
                (case start P of
                   Some m \<Rightarrow>
                     (fs1, cancel s1, [],
                      Returned (Some (Wrap (LibErr m) ''failed to start process'')))
                 | None \<Rightarrow>
                     let s2 = s1\<lparr>workdir := wd, cmd := True, stdin := True,
                                  stopping := False\<rparr>;
                         s3 = setState ReportedStateActive [] s2
                     in (case dispatch_loop C (events P)
                                \<lparr>sess = s3, errCh = None, logged = []\<rparr> of
                           (st, Running) \<Rightarrow> (fs1, sess st, logged st, Running)
                         | (st, Returned r) \<Rightarrow>
                             (case cleanup fs1 (sess st) of
                                (fs2, s4) \<Rightarrow> (fs2, s4, logged st, Returned r)))))))))"

text \<open>
  \<open>sdxRunner.StartPlugin\<close>: \<open>runProcess\<close> runs in a goroutine of its own, and an error
  it returns is logged.  The result of \<open>StartPlugin\<close> itself is the second component.
\<close>

definition StartPlugin ::
  "codec \<Rightarrow> proc_env \<Rightarrow> world \<Rightarrow> plugin_id \<Rightarrow> world \<times> error option" where
  "StartPlugin C P w k =
     (case sessions w k of
        None \<Rightarrow> (w, Some (New ''plugin session not found''))
      | Some s \<Rightarrow>
          (case runProcess C P (files w) s of
             (fs1, s1, lg, res) \<Rightarrow>
               (w\<lparr>sessions := (sessions w)(k \<mapsto> s1),
                   files := fs1,
                   logs := logs w @ lg
                     @ (case res of
                          Returned (Some e) \<Rightarrow> [LogError ''plugin start failed'' e]
                        | _ \<Rightarrow> [])\<rparr>,
                None)))"

section \<open>The WebAssembly runner\<close>

text \<open>\<open>wazeroRunner.GetSession\<close> and \<open>wazeroRunner.Unload\<close> on its own registry.\<close>

definition wazero_GetSession :: "world \<Rightarrow> plugin_id \<Rightarrow> error + session" where
  "wazero_GetSession w k =
     (case sessions w k of
        None \<Rightarrow> Inl (New ''plugin session not found'')
      | Some s \<Rightarrow> Inr s)"

definition wazero_Unload :: "session_stop \<Rightarrow> world \<Rightarrow> plugin_id \<Rightarrow> world \<times> error option" where
  "wazero_Unload stop w k =
     (case sessions w k of
        None \<Rightarrow> (w, Some (New ''plugin session not found''))
      | Some s \<Rightarrow>
          let w1 = put_session k (stop s) w
          in (w1\<lparr>sessions := (sessions w1)(k := None)\<rparr>, None))"

section \<open>The manager\<close>

text \<open>
  The manager sees the runner through the interface \<open>Runner\<close> and the record store
  through its querier; both are records of operations.  \<open>'r\<close> is the state of the runner
  behind the interface.
\<close>

record 'r Runner =
  r_GetSession :: "'r \<Rightarrow> plugin_id \<Rightarrow> 'r \<times> (error + session)"
  r_Load :: "'r \<Rightarrow> archive \<Rightarrow> 'r \<times> (error + session)"
  r_StartPlugin :: "'r \<Rightarrow> plugin_id \<Rightarrow> 'r \<times> error option"
  r_StopPlugin :: "'r \<Rightarrow> plugin_id \<Rightarrow> 'r \<times> error option"

record plugin_record =
  rec_ID :: plugin_id
  rec_Manifest :: manifest

record querier =
  q_Get :: "plugin_id \<Rightarrow> error + plugin_record"
  q_LoadBinary :: "plugin_id \<Rightarrow> error + archive"

definition wrap_ctx :: "'r \<times> error option \<Rightarrow> 'r \<times> error option" where
  "wrap_ctx x = (case x of (st, Some e) \<Rightarrow> (st, Some (WithCtx e)) | (st, None) \<Rightarrow> (st, None))"

definition activatePlugin ::
  "querier \<Rightarrow> 'r Runner \<Rightarrow> 'r \<Rightarrow> plugin_record \<Rightarrow> 'r \<times> error option" where
  "activatePlugin Q R st rec =
     (case r_GetSession R st (ID (rec_Manifest rec)) of
        (st1, Inl err) \<Rightarrow>
          (case q_LoadBinary Q (rec_ID rec) of
             Inl e \<Rightarrow> (st1, Some (WithCtx e))
           | Inr bin \<Rightarrow>
               (case r_Load R st1 bin of
                  (st2, Inl e) \<Rightarrow> (st2, Some (WithCtx e))
                | (st2, Inr s) \<Rightarrow> wrap_ctx (r_StartPlugin R st2 (ID (rec_Manifest rec)))))
      | (st1, Inr s) \<Rightarrow> wrap_ctx (r_StartPlugin R st1 (ID (rec_Manifest rec))))"

definition deactivatePlugin ::
  "'r Runner \<Rightarrow> 'r \<Rightarrow> plugin_record \<Rightarrow> 'r \<times> error option" where
  "deactivatePlugin R st rec = wrap_ctx (r_StopPlugin R st (ID (rec_Manifest rec)))"

definition SetActiveState ::
  "querier \<Rightarrow> 'r Runner \<Rightarrow> 'r \<Rightarrow> plugin_id \<Rightarrow> active_state \<Rightarrow> 'r \<times> error option" where
  "SetActiveState Q R st k desiredState =
     (case q_Get Q k of
        Inl e \<Rightarrow> (st, Some (WithCtx e))
      | Inr rec \<Rightarrow>
          (case desiredState of
             ActiveStateActive \<Rightarrow> wrap_ctx (activatePlugin Q R st rec)
           | ActiveStateInactive \<Rightarrow> wrap_ctx (deactivatePlugin R st rec)
           | ActiveStateOther v \<Rightarrow> (st, Some (New ''unknown desired state''))))"

text \<open>
  The subprocess runner behind the interface, in a given environment, and a runner that
  only counts the calls made to it.
\<close>

definition sdx_Runner ::
  "manifest_decoder \<Rightarrow> codec \<Rightarrow> session_stop \<Rightarrow> proc_env \<Rightarrow> stop_env \<Rightarrow> world Runner" where
  "sdx_Runner dec C stop P E =
     \<lparr>r_GetSession = (\<lambda>w k. (w, GetSession w k)),
      r_Load = Load dec,
      r_StartPlugin = StartPlugin C P,
      r_StopPlugin = StopPlugin stop E\<rparr>"

datatype runner_call =
    CallGetSession plugin_id
  | CallLoad archive
  | CallStartPlugin plugin_id
  | CallStopPlugin plugin_id

definition recording_Runner :: "'r Runner \<Rightarrow> ('r \<times> runner_call list) Runner" where
  "recording_Runner R =
     \<lparr>r_GetSession = (\<lambda>(st, cs) k.
         (case r_GetSession R st k of (st1, x) \<Rightarrow> ((st1, cs @ [CallGetSession k]), x))),
      r_Load = (\<lambda>(st, cs) bin.
         (case r_Load R st bin of (st1, x) \<Rightarrow> ((st1, cs @ [CallLoad bin]), x))),
      r_StartPlugin = (\<lambda>(st, cs) k.
         (case r_StartPlugin R st k of (st1, x) \<Rightarrow> ((st1, cs @ [CallStartPlugin k]), x))),
      r_StopPlugin = (\<lambda>(st, cs) k.
         (case r_StopPlugin R st k of (st1, x) \<Rightarrow> ((st1, cs @ [CallStopPlugin k]), x)))\<rparr>"

section \<open>Notions used in the proofs\<close>

text \<open>
  A proper path element is neither empty nor \<open>.\<close> nor \<open>..\<close> and holds no separator.
  The element stack of \<open>filepath.Clean\<close> (top first) is well formed when every element
  is proper, except that the stack of a relative path may consist of \<open>..\<close> below its
  proper elements.  \<open>render\<close> is the path \<open>filepath.Clean\<close> prints for a list of
  elements.
\<close>

definition proper :: "string \<Rightarrow> bool" where
  "proper c = (c \<noteq> [] \<and> c \<noteq> ''.'' \<and> c \<noteq> ''..'' \<and> CHR ''/'' \<notin> set c)"

fun ok_stack :: "bool \<Rightarrow> string list \<Rightarrow> bool" where
  "ok_stack r [] = True"
| "ok_stack r (t # ts) =
     (if t = ''..'' then \<not> r \<and> (\<forall>x \<in> set ts. x = ''..'') else proper t \<and> ok_stack r ts)"

definition render :: "bool \<Rightarrow> string list \<Rightarrow> string" where
  "render r cs = (if r then CHR ''/'' # join_sep cs else if cs = [] then ''.'' else join_sep cs)"

text \<open>
  A path lies inside a directory when the directory followed by a separator is a prefix
  of it.  During extraction the working directory exists, and so do its parents.
\<close>

definition inside :: "string \<Rightarrow> string \<Rightarrow> bool" where
  "inside wd p = prefix (wd @ ''/'') p"

definition workdir_ready :: "string \<Rightarrow> filesys \<Rightarrow> bool" where
  "workdir_ready wd fs =
     (wd \<noteq> [] \<and> fs wd = Some DirNode \<and> list_all (is_dir fs) (ancestors wd))"

section \<open>Concrete inputs\<close>

text \<open>
  A manifest decoder that knows one manifest, and a plugin archive with a manifest and
  an executable.
\<close>

definition demo_dec :: manifest_decoder where
  "demo_dec d = (if d = ''{id:p1}'' then Some \<lparr>ID = ''p1'', Title = []\<rparr> else None)"

definition demo_manifest_file :: zip_file where
  "demo_manifest_file = \<lparr>Name = ''manifest.json'', Mode = 0x1A4, Body = Bytes ''{id:p1}''\<rparr>"

definition demo_main_file :: zip_file where
  "demo_main_file = \<lparr>Name = ''bin/main'', Mode = 0x1A4, Body = Bytes ''ELF''\<rparr>"

definition demo_files :: "zip_file list" where
  "demo_files = [demo_manifest_file, demo_main_file]"

definition demo_fs :: filesys where
  "demo_fs = [''/tmp'' \<mapsto> DirNode]"

definition demo_world :: world where
  "demo_world = \<lparr>sessions = Map.empty, files = demo_fs, logs = []\<rparr>"

definition demo_evil_file :: zip_file where
  "demo_evil_file = \<lparr>Name = ''../evil'', Mode = 0x1A4, Body = Bytes ''x''\<rparr>"

text \<open>The working directory of the examples, and two entries that clash: a directory
  and a regular file of the same name.\<close>

definition demo_tmp :: string where
  "demo_tmp = ''/tmp/storyden-sdx-1''"



text \<open>
  A response decoder for frames of the form \<open>{id:...}\<close>, a parser of identifiers that
  accepts every non-empty one, and a \<open>stop\<close> that cancels the session's context.
\<close>

definition demo_codec :: codec where
  "demo_codec =
     \<lparr>decode_response = (\<lambda>line. if take 4 line = ''{id:'' \<and> last line = CHR ''}''
                                 then Some \<lparr>RespID = butlast (drop 4 line), Result = ''ok''\<rparr>
                                 else None),
      xid_FromString = (\<lambda>v. if v = [] then None else Some v)\<rparr>"

text \<open>
  A codec whose parser of identifiers has the shape of \<open>xid.FromString\<close>: twenty
  characters of the base-32 alphabet of \<open>xid\<close>.
\<close>

definition xid_alphabet :: string where
  "xid_alphabet = ''0123456789abcdefghijklmnopqrstuv''"

definition strict_codec :: codec where
  "strict_codec =
     \<lparr>decode_response = decode_response demo_codec,
      xid_FromString = (\<lambda>v. if length v = 20 \<and> list_all (\<lambda>c. c \<in> set xid_alphabet) v
                              then Some v else None)\<rparr>"

definition demo_stop :: session_stop where
  "demo_stop s = (case sctx s of None \<Rightarrow> s | Some c \<Rightarrow> s\<lparr>sctx := Some True\<rparr>)"

text \<open>
  An environment in which the process starts, and one for \<open>StopPlugin\<close> in which the
  process cannot be killed.
\<close>

definition demo_penv :: proc_env where
  "demo_penv =
     \<lparr>tmpname = ''/tmp/storyden-sdx-1'', stdoutPipe = None, stderrPipe = None,
      stdinPipe = None, start = None, events = []\<rparr>"

definition demo_senv :: stop_env where
  "demo_senv =
     \<lparr>proc_exited = False, kill = KillFailed ''operation not permitted'',
      caller_done = None\<rparr>"

text \<open>The session \<open>Load\<close> creates for the archive, and the same session while it runs
  with one command pending.\<close>

definition demo_session :: session where
  "demo_session =
     \<lparr>sid = ''p1'', runType = RunTypeBackground,
      reportedState = ReportedStateInactive, stateNote = [],
      sbin = Zip demo_files, smanifest = \<lparr>ID = ''p1'', Title = []\<rparr>,
      pendingCommands = Map.empty, channels = (\<lambda>c. []),
      sctx = None, workdir = [], cmd = False, stdin = False, stopping = False\<rparr>"

text \<open>The session of an archive that also holds the escaping entry.\<close>

definition demo_evil_session :: session where
  "demo_evil_session = demo_session\<lparr>sbin := Zip (demo_files @ [demo_evil_file])\<rparr>"

definition demo_active :: session where
  "demo_active =
     demo_session\<lparr>reportedState := ReportedStateActive, sctx := Some False,
                  workdir := ''/tmp/storyden-sdx-1'', cmd := True, stdin := True,
                  pendingCommands :=
                    [''c1'' \<mapsto> \<lparr>request = \<lparr>Method = ''ping'', Params = []\<rparr>, respch = 0\<rparr>]\<rparr>"

definition demo_run_state :: run_state where
  "demo_run_state = \<lparr>sess = demo_active, errCh = None, logged = []\<rparr>"

definition demo_active_world :: world where
  "demo_active_world = put_session ''p1'' demo_active demo_world"

text \<open>A record store with the one plugin.\<close>

definition demo_record :: plugin_record where
  "demo_record = \<lparr>rec_ID = ''p1'', rec_Manifest = \<lparr>ID = ''p1'', Title = []\<rparr>\<rparr>"

definition demo_querier :: querier where
  "demo_querier =
     \<lparr>q_Get = (\<lambda>k. if k = ''p1'' then Inr demo_record
                    else Inl (LibErr ''plugin not found'')),
      q_LoadBinary = (\<lambda>k. if k = ''p1'' then Inr (Zip demo_files)
                           else Inl (LibErr ''plugin not found''))\<rparr>"

section \<open>Paths\<close>

lemma split_sep_nonempty [simp]: "split_sep s \<noteq> []"
  by (induction s) (auto split: list.splits)

lemma split_sep_noslash: "CHR ''/'' \<notin> set a \<Longrightarrow> split_sep a = [a]"
  by (induction a) auto

lemma split_sep_append_slash:
  "CHR ''/'' \<notin> set a \<Longrightarrow> split_sep (a @ CHR ''/'' # b) = a # split_sep b"
  by (induction a) auto

lemma split_sep_elems: "c \<in> set (split_sep s) \<Longrightarrow> CHR ''/'' \<notin> set c"
  by (induction s arbitrary: c) (auto split: if_splits list.splits)

lemma split_sep_join_sep:
  "cs \<noteq> [] \<Longrightarrow> \<forall>c \<in> set cs. CHR ''/'' \<notin> set c \<Longrightarrow> split_sep (join_sep cs) = cs"
  by (induction cs rule: join_sep.induct) (auto simp: split_sep_noslash split_sep_append_slash)

lemma join_sep_snoc:
  "join_sep (cs @ [c]) = (if cs = [] then c else join_sep cs @ CHR ''/'' # c)"
  by (induction cs rule: join_sep.induct) auto

lemma split_sep_snoc_slash:
  "split_sep (s @ ''/'') = split_sep s @ [[]]"
  by (induction s) (auto split: list.splits)

lemma clean_step_skip: "c = [] \<or> c = ''.'' \<Longrightarrow> clean_step r st c = st"
  by auto

lemma clean_step_dd_Nil: "clean_step r [] ''..'' = (if r then [] else [''..''])"
  by simp

lemma clean_step_dd_Cons:
  "clean_step r (t # ts) ''..'' = (if t = ''..'' \<and> \<not> r then ''..'' # t # ts else ts)"
  by simp

lemma clean_step_other:
  "c \<noteq> [] \<Longrightarrow> c \<noteq> ''.'' \<Longrightarrow> c \<noteq> ''..'' \<Longrightarrow> clean_step r st c = c # st"
  by simp

lemma ok_stack_dd_D:
  "ok_stack r (''..'' # ts) \<Longrightarrow> \<not> r"
  "ok_stack r (''..'' # ts) \<Longrightarrow> x \<in> set ts \<Longrightarrow> x = ''..''"
  by simp_all

lemma ok_stack_dd_I: "\<not> r \<Longrightarrow> \<forall>x \<in> set ts. x = ''..'' \<Longrightarrow> ok_stack r (''..'' # ts)"
  by simp

lemma ok_stack_other_D:
  "t \<noteq> ''..'' \<Longrightarrow> ok_stack r (t # ts) \<Longrightarrow> proper t"
  "t \<noteq> ''..'' \<Longrightarrow> ok_stack r (t # ts) \<Longrightarrow> ok_stack r ts"
  by simp_all

lemma ok_stack_other_I: "proper t \<Longrightarrow> ok_stack r ts \<Longrightarrow> ok_stack r (t # ts)"
  by (simp add: proper_def)

lemma proper_facts:
  "proper c \<Longrightarrow> c \<noteq> []" "proper c \<Longrightarrow> c \<noteq> ''.''" "proper c \<Longrightarrow> c \<noteq> ''..''"
  "proper c \<Longrightarrow> CHR ''/'' \<notin> set c"
  by (simp_all add: proper_def)

lemma properI: "c \<noteq> [] \<Longrightarrow> c \<noteq> ''.'' \<Longrightarrow> c \<noteq> ''..'' \<Longrightarrow> CHR ''/'' \<notin> set c \<Longrightarrow> proper c"
  by (simp add: proper_def)

lemma dd_facts: "CHR ''/'' \<notin> set ''..''" "''..'' \<noteq> []" "''..'' \<noteq> ''.''"
  by simp_all

declare clean_step.simps [simp del] ok_stack.simps(2) [simp del]

lemma all_dd_ok: "\<not> r \<Longrightarrow> \<forall>x \<in> set ts. x = ''..'' \<Longrightarrow> ok_stack r ts"
proof (induction ts)
  case Nil
  then show ?case by simp
next
  case (Cons t ts)
  then have t: "t = ''..''" and ts: "\<forall>x \<in> set ts. x = ''..''" by simp_all
  show ?case unfolding t using Cons.prems(1) ts by (rule ok_stack_dd_I)
qed

lemma ok_stack_tail:
  assumes "ok_stack r (t # ts)"
  shows "ok_stack r ts"
proof (cases "t = ''..''")
  case True
  have "\<not> r" using assms unfolding True by (rule ok_stack_dd_D(1))
  moreover have "\<forall>x \<in> set ts. x = ''..''"
    using assms unfolding True by (blast dest: ok_stack_dd_D(2))
  ultimately show ?thesis by (rule all_dd_ok)
next
  case False
  then show ?thesis using assms by (rule ok_stack_other_D(2))
qed

lemma ok_stack_suffix: "ok_stack r (xs @ ys) \<Longrightarrow> ok_stack r ys"
proof (induction xs)
  case Nil
  then show ?case by simp
next
  case (Cons x xs)
  then have "ok_stack r (x # (xs @ ys))" by simp
  then have "ok_stack r (xs @ ys)" by (rule ok_stack_tail)
  then show ?case by (rule Cons.IH)
qed

lemma ok_stack_elem: "ok_stack r st \<Longrightarrow> c \<in> set st \<Longrightarrow> c = ''..'' \<or> proper c"
proof (induction st)
  case Nil
  then show ?case by simp
next
  case (Cons t ts)
  have tl: "ok_stack r ts" using Cons.prems(1) by (rule ok_stack_tail)
  show ?case
  proof (cases "c = t")
    case True
    show ?thesis
    proof (cases "t = ''..''")
      case True
      with \<open>c = t\<close> show ?thesis by simp
    next
      case False
      then have "proper t" using Cons.prems(1) by (rule ok_stack_other_D(1))
      with \<open>c = t\<close> show ?thesis by simp
    qed
  next
    case False
    with Cons.prems(2) have "c \<in> set ts" by simp
    with tl show ?thesis by (rule Cons.IH)
  qed
qed

lemma ok_stack_noslash: "ok_stack r st \<Longrightarrow> c \<in> set st \<Longrightarrow> CHR ''/'' \<notin> set c"
  using ok_stack_elem [of r st c] proper_facts(4) [of c] dd_facts(1) by metis

lemma ok_stack_nonempty_elems: "ok_stack r st \<Longrightarrow> c \<in> set st \<Longrightarrow> c \<noteq> []"
  using ok_stack_elem [of r st c] proper_facts(1) [of c] dd_facts(2) by metis

lemma ok_stack_step:
  assumes "ok_stack r st" and "CHR ''/'' \<notin> set c"
  shows "ok_stack r (clean_step r st c)"
proof -
  consider (skip) "c = [] \<or> c = ''.''" | (dd) "c = ''..''"
    | (other) "c \<noteq> []" "c \<noteq> ''.''" "c \<noteq> ''..''"
    by blast
  then show ?thesis
  proof cases
    case skip
    then show ?thesis using assms(1) by (simp only: clean_step_skip)
  next
    case dd
    show ?thesis
    proof (cases st)
      case Nil
      have "ok_stack r [''..'']" if "\<not> r" using that by (intro ok_stack_dd_I) simp_all
      then show ?thesis
        unfolding dd Nil clean_step_dd_Nil by (cases r) simp_all
    next
      case (Cons t ts)
      show ?thesis
      proof (cases "t = ''..'' \<and> \<not> r")
        case True
        then have t: "t = ''..''" and nr: "\<not> r" by simp_all
        have "\<forall>x \<in> set ts. x = ''..''"
          using assms(1) unfolding Cons t by (blast dest: ok_stack_dd_D(2))
        then have "\<forall>x \<in> set (t # ts). x = ''..''" using t by simp
        with nr have "ok_stack r (''..'' # t # ts)" by (rule ok_stack_dd_I)
        moreover have "clean_step r (t # ts) ''..'' = ''..'' # t # ts"
          unfolding clean_step_dd_Cons using True by (rule if_P)
        ultimately show ?thesis
          unfolding dd Cons by simp
      next
        case False
        have "clean_step r (t # ts) ''..'' = ts"
          unfolding clean_step_dd_Cons using False by (rule if_not_P)
        moreover have "ok_stack r ts" using assms(1) unfolding Cons by (rule ok_stack_tail)
        ultimately show ?thesis
          unfolding dd Cons by simp
      qed
    qed
  next
    case other
    then have "proper c" using assms(2) by (intro properI)
    then have "ok_stack r (c # st)"
      using assms(1) by (rule ok_stack_other_I)
    moreover have "clean_step r st c = c # st"
      using other by (rule clean_step_other)
    ultimately show ?thesis by simp
  qed
qed

lemma ok_stack_foldl:
  "ok_stack r st \<Longrightarrow> \<forall>c \<in> set cs. CHR ''/'' \<notin> set c
     \<Longrightarrow> ok_stack r (foldl (clean_step r) st cs)"
proof (induction cs arbitrary: st)
  case Nil
  then show ?case by simp
next
  case (Cons c cs)
  have "ok_stack r (clean_step r st c)"
    using Cons.prems by (intro ok_stack_step) auto
  then show ?case using Cons by simp
qed

lemma clean_step_push:
  assumes "ok_stack r (c # st)"
  shows "clean_step r st c = c # st"
proof (cases "c = ''..''")
  case True
  have nr: "\<not> r" using assms unfolding True by (rule ok_stack_dd_D(1))
  have all: "\<forall>x \<in> set st. x = ''..''"
    using assms unfolding True by (blast dest: ok_stack_dd_D(2))
  show ?thesis
  proof (cases st)
    case Nil
    show ?thesis unfolding True Nil clean_step_dd_Nil using nr by simp
  next
    case (Cons t ts)
    then have "t = ''..'' \<and> \<not> r" using all nr by simp
    then show ?thesis unfolding True Cons clean_step_dd_Cons by (rule if_P)
  qed
next
  case False
  then have "proper c" using assms by (rule ok_stack_other_D(1))
  then show ?thesis
    by (intro clean_step_other proper_facts)
qed

lemma foldl_clean_ok:
  "ok_stack r (rev cs @ st0) \<Longrightarrow> foldl (clean_step r) st0 cs = rev cs @ st0"
proof (induction cs arbitrary: st0)
  case Nil
  then show ?case by simp
next
  case (Cons c cs)
  have ok: "ok_stack r (rev cs @ (c # st0))" using Cons.prems by simp
  then have "ok_stack r (c # st0)" by (rule ok_stack_suffix)
  then have "clean_step r st0 c = c # st0" by (rule clean_step_push)
  then show ?case using Cons.IH [OF ok] by simp
qed

lemma clean_elems_ok:
  assumes "ok_stack r (rev cs)"
  shows "clean_elems r cs = cs"
    and "clean_elems r ([] # cs) = cs"
    and "clean_elems r (cs @ [[]]) = cs"
    and "clean_elems r ([] # cs @ [[]]) = cs"
  using foldl_clean_ok [of r cs "[]"] assms
  by (simp_all add: clean_elems_def clean_step_skip)

lemma clean_elems_ok_stack:
  "ok_stack r (rev (clean_elems r (split_sep s)))"
  unfolding clean_elems_def rev_rev_ident
  by (rule ok_stack_foldl) (auto dest: split_sep_elems)

lemma join_sep_nonempty:
  "cs \<noteq> [] \<Longrightarrow> \<forall>c \<in> set cs. c \<noteq> [] \<Longrightarrow> join_sep cs \<noteq> []"
  by (induction cs rule: join_sep.induct) auto

lemma ok_join_sep_nonempty:
  assumes "ok_stack r (rev cs)" and "cs \<noteq> []"
  shows "join_sep cs \<noteq> []"
  using assms ok_stack_nonempty_elems [of r "rev cs"]
  by (intro join_sep_nonempty) auto

lemma Clean_rooted:
  assumes "x \<noteq> []" and "hd x = CHR ''/''"
  shows "filepath_Clean x = render True (clean_elems True (split_sep x))"
  using assms by (simp add: filepath_Clean_def render_def)

lemma Clean_relative:
  assumes "x \<noteq> []" and "hd x \<noteq> CHR ''/''"
  shows "filepath_Clean x = render False (clean_elems False (split_sep x))"
proof (cases "clean_elems False (split_sep x) = []")
  case True
  then show ?thesis using assms by (simp add: filepath_Clean_def render_def)
next
  case False
  have "ok_stack False (rev (clean_elems False (split_sep x)))"
    by (rule clean_elems_ok_stack)
  then have "join_sep (clean_elems False (split_sep x)) \<noteq> []"
    using False by (rule ok_join_sep_nonempty)
  then show ?thesis using assms False by (simp add: filepath_Clean_def render_def)
qed

lemma Clean_render:
  "\<exists>r cs. filepath_Clean x = render r cs \<and> ok_stack r (rev cs)"
proof (cases "x = []")
  case True
  then have "filepath_Clean x = render False []" by (simp add: filepath_Clean_def render_def)
  then show ?thesis by (intro exI [of _ False] exI [of _ "[]"]) simp
next
  case False
  show ?thesis
  proof (cases "hd x = CHR ''/''")
    case True
    with False Clean_rooted clean_elems_ok_stack show ?thesis by blast
  next
    case False
    with \<open>x \<noteq> []\<close> Clean_relative clean_elems_ok_stack show ?thesis by blast
  qed
qed

lemma ancestors_iff:
  "a \<in> set (ancestors p) \<longleftrightarrow> (\<exists>i. 1 \<le> i \<and> i < length p \<and> p ! i = CHR ''/'' \<and> a = take i p)"
  by (auto simp: ancestors_def)

lemma ancestors_root [simp]: "ancestors ''/'' = []" "ancestors ''.'' = []" "ancestors [] = []"
  by (simp_all add: ancestors_def)

lemma ancestors_split: "a \<noteq> [] \<Longrightarrow> a \<in> set (ancestors (a @ CHR ''/'' # b))"
  unfolding ancestors_iff
  by (rule exI [of _ "length a"]) (cases a; simp)

lemma ancestors_trans:
  assumes "a \<in> set (ancestors t)" and "b \<in> set (ancestors a)"
  shows "b \<in> set (ancestors t)"
proof -
  from assms(1) obtain i where i: "1 \<le> i" "i < length t" "t ! i = CHR ''/''" "a = take i t"
    unfolding ancestors_iff by blast
  from assms(2) obtain j where j: "1 \<le> j" "j < length a" "a ! j = CHR ''/''" "b = take j a"
    unfolding ancestors_iff by blast
  have ji: "j < i" using j(2) i(4) by simp
  have "t ! j = CHR ''/''" using j(3) ji i(4) by simp
  moreover have "b = take j t" using j(4) i(4) ji by (simp add: min_def)
  moreover have "j < length t" using ji i(2) by simp
  ultimately show ?thesis unfolding ancestors_iff using j(1) by blast
qed

lemma ancestors_inside:
  assumes "prefix (wd @ ''/'') t" and "a \<in> set (ancestors t)"
  shows "a \<in> set (ancestors wd) \<or> a = wd \<or> prefix (wd @ ''/'') a"
proof -
  from assms(1) obtain rest where t: "t = wd @ CHR ''/'' # rest"
    by (auto simp: prefix_def)
  from assms(2) obtain i where i: "1 \<le> i" "i < length t" "t ! i = CHR ''/''" "a = take i t"
    unfolding ancestors_iff by blast
  consider (lt) "i < length wd" | (eq) "i = length wd" | (gt) "length wd < i"
    by linarith
  then show ?thesis
  proof cases
    case lt
    then have "wd ! i = CHR ''/''" using i(3) t by (simp add: nth_append)
    moreover have "a = take i wd" using i(4) t lt by simp
    ultimately have "a \<in> set (ancestors wd)"
      unfolding ancestors_iff using i(1) lt by blast
    then show ?thesis by simp
  next
    case eq
    then have "a = wd" using i(4) t by simp
    then show ?thesis by simp
  next
    case gt
    then obtain k where k: "i = length wd + Suc k"
      by (metis less_imp_Suc_add add_Suc_right)
    have "a = wd @ CHR ''/'' # take k rest" using i(4) t k by simp
    then show ?thesis by (simp add: prefix_def)
  qed
qed

lemma dir_part:
  assumes "CHR ''/'' \<notin> set c" and "P = [] \<or> last P = CHR ''/''"
  shows "rev (dropWhile (\<lambda>x. x \<noteq> CHR ''/'') (rev (P @ c))) = P"
proof -
  have "dropWhile (\<lambda>x. x \<noteq> CHR ''/'') (rev (P @ c)) = dropWhile (\<lambda>x. x \<noteq> CHR ''/'') (rev P)"
  proof -
    have "dropWhile (\<lambda>x. x \<noteq> CHR ''/'') (rev c @ rev P)
            = dropWhile (\<lambda>x. x \<noteq> CHR ''/'') (rev P)"
      by (rule dropWhile_append2) (use assms(1) in auto)
    then show ?thesis by simp
  qed
  also have "\<dots> = rev P"
  proof (cases "P = []")
    case True
    then show ?thesis by simp
  next
    case False
    then have "hd (rev P) = CHR ''/''" using assms(2) by (simp add: hd_rev)
    moreover have "rev P \<noteq> []" using False by simp
    ultimately show ?thesis by (cases "rev P") simp_all
  qed
  finally show ?thesis by simp
qed

lemma Clean_root: "filepath_Clean ''/'' = ''/''"
  by (simp add: filepath_Clean_def clean_elems_def clean_step_skip)

lemma Clean_empty: "filepath_Clean [] = ''.''"
  by (simp add: filepath_Clean_def)

lemma ok_elems_noslash:
  "ok_stack r (rev cs) \<Longrightarrow> \<forall>c \<in> set cs. CHR ''/'' \<notin> set c"
  using ok_stack_noslash [of r "rev cs"] by auto

lemma ok_butlast: "ok_stack r (rev (cs @ [c])) \<Longrightarrow> ok_stack r (rev cs)"
  using ok_stack_tail [of r c "rev cs"] by simp

lemma hd_join_sep:
  "cs \<noteq> [] \<Longrightarrow> hd cs \<noteq> [] \<Longrightarrow> hd (join_sep cs) = hd (hd cs)"
  by (induction cs rule: join_sep.induct) auto

lemma Clean_dir_rooted:
  assumes "ok_stack True (rev cs)" and "cs \<noteq> []"
  shows "filepath_Clean (CHR ''/'' # join_sep cs @ ''/'') = CHR ''/'' # join_sep cs"
proof -
  have ns: "\<forall>c \<in> set cs. CHR ''/'' \<notin> set c" using assms(1) by (rule ok_elems_noslash)
  have "split_sep (CHR ''/'' # join_sep cs @ ''/'') = [] # cs @ [[]]"
    using split_sep_join_sep [OF assms(2) ns] by (simp add: split_sep_snoc_slash)
  then show ?thesis
    using clean_elems_ok(4) [OF assms(1)] by (simp add: filepath_Clean_def)
qed

lemma Clean_dir_relative:
  assumes "ok_stack False (rev cs)" and "cs \<noteq> []"
  shows "filepath_Clean (join_sep cs @ ''/'') = join_sep cs"
proof -
  have ns: "\<forall>c \<in> set cs. CHR ''/'' \<notin> set c" using assms(1) by (rule ok_elems_noslash)
  have ne: "join_sep cs \<noteq> []" using assms by (rule ok_join_sep_nonempty)
  have "hd cs \<in> set cs" using assms(2) by simp
  then have h: "hd cs \<noteq> []" "CHR ''/'' \<notin> set (hd cs)"
    using ok_stack_nonempty_elems [OF assms(1), of "hd cs"] ns by auto
  then have "hd (hd cs) \<noteq> CHR ''/''" by (cases "hd cs") auto
  then have hd: "hd (join_sep cs @ ''/'') \<noteq> CHR ''/''"
    using hd_join_sep [OF assms(2) h(1)] ne by simp
  have "split_sep (join_sep cs @ ''/'') = cs @ [[]]"
    using split_sep_join_sep [OF assms(2) ns] by (simp add: split_sep_snoc_slash)
  then show ?thesis
    using clean_elems_ok(3) [OF assms(1)] hd ne by (simp add: filepath_Clean_def)
qed

lemma render_snoc:
  assumes "cs \<noteq> []"
  shows "render r (cs @ [c]) = render r cs @ CHR ''/'' # c"
  using assms by (simp add: render_def join_sep_snoc)

lemma render_nonempty: "render r cs \<noteq> [] \<or> (\<not> r \<and> cs \<noteq> [] \<and> join_sep cs = [])"
  by (simp add: render_def)

lemma Dir_render:
  assumes "ok_stack r (rev cs)"
  shows "filepath_Dir (render r cs) = render r (butlast cs)"
proof (cases cs rule: rev_cases)
  case Nil
  show ?thesis
  proof (cases r)
    case True
    then show ?thesis using Nil by (simp add: filepath_Dir_def render_def Clean_root)
  next
    case False
    then show ?thesis using Nil by (simp add: filepath_Dir_def render_def Clean_empty)
  qed
next
  case (snoc cs' c)
  have okc: "ok_stack r (rev cs')" using assms unfolding snoc by (rule ok_butlast)
  have nsc: "CHR ''/'' \<notin> set c" using ok_elems_noslash [OF assms] snoc by simp
  show ?thesis
  proof (cases "cs' = []")
    case True
    show ?thesis
    proof (cases r)
      case True
      have rc: "render r cs = CHR ''/'' # c" using True \<open>cs' = []\<close> snoc by (simp add: render_def)
      have dp: "rev (dropWhile (\<lambda>x. x \<noteq> CHR ''/'') (rev (CHR ''/'' # c))) = ''/''"
        using dir_part [OF nsc, of "''/''"] by simp
      have "filepath_Dir (render r cs) = filepath_Clean ''/''"
        unfolding filepath_Dir_def rc dp ..
      then show ?thesis
        using True \<open>cs' = []\<close> snoc by (simp add: Clean_root render_def)
    next
      case False
      have rc: "render r cs = c" using False \<open>cs' = []\<close> snoc by (simp add: render_def)
      have dp: "rev (dropWhile (\<lambda>x. x \<noteq> CHR ''/'') (rev c)) = []"
        using dir_part [OF nsc, of "[]"] by simp
      have "filepath_Dir (render r cs) = filepath_Clean []"
        unfolding filepath_Dir_def rc dp ..
      then show ?thesis
        using False \<open>cs' = []\<close> snoc by (simp add: Clean_empty render_def)
    qed
  next
    case False
    have r1: "render r cs = (render r cs' @ ''/'') @ c"
      unfolding snoc using render_snoc [OF False] by simp
    have dp: "rev (dropWhile (\<lambda>x. x \<noteq> CHR ''/'') (rev ((render r cs' @ ''/'') @ c)))
            = render r cs' @ ''/''"
      by (rule dir_part [OF nsc]) simp
    have d: "filepath_Dir (render r cs) = filepath_Clean (render r cs' @ ''/'')"
      unfolding filepath_Dir_def r1 dp ..
    have "filepath_Clean (render r cs' @ ''/'') = render r cs'"
    proof (cases r)
      case True
      then show ?thesis
        using Clean_dir_rooted [of cs'] okc False by (simp add: render_def)
    next
      case False
      then show ?thesis
        using Clean_dir_relative [of cs'] okc \<open>cs' \<noteq> []\<close> by (simp add: render_def)
    qed
    with d show ?thesis unfolding snoc by simp
  qed
qed

lemma render_Nil_cases: "render r [] = ''/'' \<or> render r [] = ''.''"
  by (simp add: render_def)

lemma Dir_of_Clean:
  assumes "t = filepath_Clean x"
  shows "filepath_Dir t \<in> set (ancestors t) \<or> filepath_Dir t = ''/'' \<or> filepath_Dir t = ''.''"
proof -
  obtain r cs where t: "t = render r cs" and ok: "ok_stack r (rev cs)"
    using Clean_render [of x] assms by auto
  have d: "filepath_Dir t = render r (butlast cs)"
    unfolding t by (rule Dir_render [OF ok])
  show ?thesis
  proof (cases "butlast cs = []")
    case True
    then show ?thesis using d render_Nil_cases [of r] by auto
  next
    case False
    then obtain cs' c where cs: "cs = cs' @ [c]" and ne: "cs' \<noteq> []"
      by (cases cs rule: rev_cases) auto
    have okc: "ok_stack r (rev cs')" using ok unfolding cs by (rule ok_butlast)
    have "render r cs' \<noteq> []"
      using ok_join_sep_nonempty [OF okc ne] by (simp add: render_def ne)
    then have "render r cs' \<in> set (ancestors (render r cs' @ CHR ''/'' # c))"
      by (rule ancestors_split)
    then show ?thesis
      using d unfolding t cs render_snoc [OF ne] by simp
  qed
qed

section \<open>Validation of archives\<close>

lemma readSDXManifest_loop_find:
  "readSDXManifest_loop fs =
     (case find (\<lambda>f. filepath_Base (Name f) = ''manifest.json'') fs of
        None \<Rightarrow> Inl (New ''manifest.json not found in plugin archive'')
      | Some f \<Rightarrow>
          (case Body f of
             OpenError m \<Rightarrow> Inl (Wrap (LibErr m) ''failed to open manifest'')
           | ReadError part m \<Rightarrow> Inl (Wrap (LibErr m) ''failed to read manifest'')
           | Bytes d \<Rightarrow> Inr d))"
  by (induction fs) auto

lemma ensureExecutablePresent_loop_None:
  "ensureExecutablePresent_loop fs = None \<longleftrightarrow> (\<exists>g \<in> set fs. is_main (Name g))"
  by (induction fs) auto

lemma ensureExecutablePresent_loop_Some:
  "ensureExecutablePresent_loop fs = Some e \<longleftrightarrow>
     e = New ''plugin archive missing main executable'' \<and> \<not> (\<exists>g \<in> set fs. is_main (Name g))"
  by (induction fs) auto

lemma readSDXManifest_Inr:
  "readSDXManifest bin = Inr d \<longleftrightarrow>
     (\<exists>fs f. bin = Zip fs \<and> find (\<lambda>f. filepath_Base (Name f) = ''manifest.json'') fs = Some f
        \<and> Body f = Bytes d)"
  by (auto simp: readSDXManifest_def zip_NewReader_def readSDXManifest_loop_find
      split: archive.splits option.splits zip_body.splits)

lemma ensureExecutablePresent_None:
  "ensureExecutablePresent bin = None \<longleftrightarrow>
     (\<exists>fs. bin = Zip fs \<and> (\<exists>g \<in> set fs. is_main (Name g)))"
  by (auto simp: ensureExecutablePresent_def zip_NewReader_def
      ensureExecutablePresent_loop_None split: archive.splits)

lemma ensureExecutablePresent_Zip_Some:
  "ensureExecutablePresent (Zip fs) = Some e \<longleftrightarrow>
     e = New ''plugin archive missing main executable'' \<and> \<not> (\<exists>g \<in> set fs. is_main (Name g))"
  by (simp add: ensureExecutablePresent_def zip_NewReader_def ensureExecutablePresent_loop_Some)

lemma Validate_Inr:
  "Validate dec bin = Inr m \<longleftrightarrow>
     (\<exists>fs f d. bin = Zip fs
        \<and> find (\<lambda>f. filepath_Base (Name f) = ''manifest.json'') fs = Some f
        \<and> Body f = Bytes d \<and> dec d = Some m
        \<and> (\<exists>g \<in> set fs. is_main (Name g)))"
  (is "?L \<longleftrightarrow> ?R")
proof (cases "readSDXManifest bin")
  case (Inl e)
  then have "\<not> (\<exists>d. readSDXManifest bin = Inr d)" by simp
  then have "\<not> ?R"
    unfolding readSDXManifest_Inr by blast
  moreover have "\<not> ?L" using Inl by (simp add: Validate_def)
  ultimately show ?thesis by simp
next
  case (Inr d)
  then obtain fs f where bin: "bin = Zip fs"
    and f: "find (\<lambda>f. filepath_Base (Name f) = ''manifest.json'') fs = Some f"
    and d: "Body f = Bytes d"
    unfolding readSDXManifest_Inr by blast
  have R: "?R \<longleftrightarrow> dec d = Some m \<and> (\<exists>g \<in> set fs. is_main (Name g))"
    using bin f d by auto
  show ?thesis
  proof (cases "dec d")
    case None
    then have "\<not> ?L" using Inr by (simp add: Validate_def)
    with None R show ?thesis by simp
  next
    case (Some m')
    show ?thesis
    proof (cases "\<exists>g \<in> set fs. is_main (Name g)")
      case True
      then have "ensureExecutablePresent bin = None"
        using bin by (simp add: ensureExecutablePresent_None)
      then have "?L \<longleftrightarrow> m' = m" using Inr Some by (simp add: Validate_def)
      with True Some R show ?thesis by simp
    next
      case False
      then have "ensureExecutablePresent bin
                   = Some (New ''plugin archive missing main executable'')"
        using bin by (simp add: ensureExecutablePresent_Zip_Some)
      then have "\<not> ?L" using Inr Some by (simp add: Validate_def)
      with False R show ?thesis by simp
    qed
  qed
qed

lemma Validate_missing_executable:
  "Validate dec bin = Inl (Wrap (New ''plugin archive missing main executable'')
                             ''plugin binary missing'') \<longleftrightarrow>
     (\<exists>fs f d m. bin = Zip fs
        \<and> find (\<lambda>f. filepath_Base (Name f) = ''manifest.json'') fs = Some f
        \<and> Body f = Bytes d \<and> dec d = Some m
        \<and> \<not> (\<exists>g \<in> set fs. is_main (Name g)))"
  (is "?L \<longleftrightarrow> ?R")
proof (cases "readSDXManifest bin")
  case (Inl e)
  then have "\<not> (\<exists>d. readSDXManifest bin = Inr d)" by simp
  then have "\<not> ?R"
    unfolding readSDXManifest_Inr by blast
  moreover have "\<not> ?L" using Inl by (simp add: Validate_def)
  ultimately show ?thesis by simp
next
  case (Inr d)
  then obtain fs f where bin: "bin = Zip fs"
    and f: "find (\<lambda>f. filepath_Base (Name f) = ''manifest.json'') fs = Some f"
    and d: "Body f = Bytes d"
    unfolding readSDXManifest_Inr by blast
  have R: "?R \<longleftrightarrow> (\<exists>m. dec d = Some m) \<and> \<not> (\<exists>g \<in> set fs. is_main (Name g))"
    using bin f d by auto
  show ?thesis
  proof (cases "dec d")
    case None
    then have "\<not> ?L" using Inr by (simp add: Validate_def)
    with None R show ?thesis by simp
  next
    case (Some m)
    show ?thesis
    proof (cases "\<exists>g \<in> set fs. is_main (Name g)")
      case True
      then have "ensureExecutablePresent bin = None"
        using bin by (simp add: ensureExecutablePresent_None)
      then have "\<not> ?L" using Inr Some by (simp add: Validate_def)
      with True R show ?thesis by simp
    next
      case False
      then have "ensureExecutablePresent bin
                   = Some (New ''plugin archive missing main executable'')"
        using bin by (simp add: ensureExecutablePresent_Zip_Some)
      then have "?L" using Inr Some by (simp add: Validate_def)
      with False Some R show ?thesis by simp
    qed
  qed
qed

lemma demo_Base [simp]:
  "filepath_Base ''manifest.json'' = ''manifest.json''"
  "filepath_Base ''bin/main'' = ''main''"
  by (simp_all add: filepath_Base_def)

lemma demo_find_manifest:
  "find (\<lambda>f. filepath_Base (Name f) = ''manifest.json'') demo_files = Some demo_manifest_file"
  "find (\<lambda>f. filepath_Base (Name f) = ''manifest.json'') [demo_manifest_file]
     = Some demo_manifest_file"
  by (simp_all add: demo_files_def demo_manifest_file_def)

lemma demo_manifest_body:
  "Body demo_manifest_file = Bytes ''{id:p1}''"
  "demo_dec ''{id:p1}'' = Some \<lparr>ID = ''p1'', Title = []\<rparr>"
  by (simp_all add: demo_manifest_file_def demo_dec_def)

lemma demo_has_main: "\<exists>g \<in> set demo_files. is_main (Name g)"
  by (simp add: demo_files_def demo_main_file_def is_main_def)

lemma demo_no_main: "\<not> (\<exists>g \<in> set [demo_manifest_file]. is_main (Name g))"
  by (simp add: demo_manifest_file_def is_main_def)

lemma demo_Validate_no_main:
  "Validate demo_dec (Zip [demo_manifest_file])
     = Inl (Wrap (New ''plugin archive missing main executable'') ''plugin binary missing'')"
  unfolding Validate_missing_executable
  using demo_find_manifest(2) demo_manifest_body demo_no_main by blast

text \<open>
  C2.  \<open>Validate\<close> of the subprocess runner returns the manifest \<open>m\<close> exactly when the
  archive is a readable zip, the first entry in archive order whose base name is
  \<open>manifest.json\<close> can be read and decodes to \<open>m\<close>, and some entry has the base name
  \<open>main\<close> or \<open>main.exe\<close>.  It fails with the error of the missing executable exactly when
  the manifest is found and decodes but no such entry exists, so that failure is never
  reported for a missing or malformed manifest.  Each check looks at the archive alone:
  the executable check passes exactly when an entry is the executable, the manifest is
  read exactly when the first manifest entry has readable bytes.
\<close>

theorem Validate_succeeds_iff:
  "(Validate dec bin = Inr m \<longleftrightarrow>
      (\<exists>fs f d. bin = Zip fs
         \<and> find (\<lambda>f. filepath_Base (Name f) = ''manifest.json'') fs = Some f
         \<and> Body f = Bytes d \<and> dec d = Some m
         \<and> (\<exists>g \<in> set fs. is_main (Name g))))
   \<and> (Validate dec bin = Inl (Wrap (New ''plugin archive missing main executable'')
                               ''plugin binary missing'') \<longleftrightarrow>
      (\<exists>fs f d m'. bin = Zip fs
         \<and> find (\<lambda>f. filepath_Base (Name f) = ''manifest.json'') fs = Some f
         \<and> Body f = Bytes d \<and> dec d = Some m'
         \<and> \<not> (\<exists>g \<in> set fs. is_main (Name g))))
   \<and> (ensureExecutablePresent bin = None \<longleftrightarrow>
      (\<exists>fs. bin = Zip fs \<and> (\<exists>g \<in> set fs. is_main (Name g))))
   \<and> (readSDXManifest bin = Inr d' \<longleftrightarrow>
      (\<exists>fs f. bin = Zip fs
         \<and> find (\<lambda>f. filepath_Base (Name f) = ''manifest.json'') fs = Some f
         \<and> Body f = Bytes d'))"
  by (intro conjI)
    (rule Validate_Inr Validate_missing_executable ensureExecutablePresent_None
      readSDXManifest_Inr)+

theorem Validate_succeeds_iff_witness:
  "Validate demo_dec (Zip demo_files) = Inr \<lparr>ID = ''p1'', Title = []\<rparr>
   \<and> Validate demo_dec (Zip [demo_manifest_file])
       = Inl (Wrap (New ''plugin archive missing main executable'') ''plugin binary missing'')"
proof -
  let ?m = "\<lparr>ID = ''p1'', Title = []\<rparr>"
  have a: "\<exists>fs f d. Zip demo_files = Zip fs
         \<and> find (\<lambda>f. filepath_Base (Name f) = ''manifest.json'') fs = Some f
         \<and> Body f = Bytes d \<and> demo_dec d = Some ?m
         \<and> (\<exists>g \<in> set fs. is_main (Name g))"
    using demo_find_manifest(1) demo_manifest_body demo_has_main by blast
  have b: "\<exists>fs f d m'. Zip [demo_manifest_file] = Zip fs
         \<and> find (\<lambda>f. filepath_Base (Name f) = ''manifest.json'') fs = Some f
         \<and> Body f = Bytes d \<and> demo_dec d = Some m'
         \<and> \<not> (\<exists>g \<in> set fs. is_main (Name g))"
    using demo_find_manifest(2) demo_manifest_body demo_no_main by blast
  note t1 = Validate_succeeds_iff [of demo_dec "Zip demo_files" ?m]
  note t2 = Validate_succeeds_iff [of demo_dec "Zip [demo_manifest_file]"]
  from a have "Validate demo_dec (Zip demo_files) = Inr ?m"
    using conjunct1 [OF t1] by blast
  moreover from b have "Validate demo_dec (Zip [demo_manifest_file])
       = Inl (Wrap (New ''plugin archive missing main executable'') ''plugin binary missing'')"
    using conjunct1 [OF conjunct2 [OF t2]] by blast
  ultimately show ?thesis by (rule conjI)
qed

section \<open>Loading\<close>

lemma Validate_no_main_fails:
  assumes "\<not> (\<exists>g \<in> set fs. is_main (Name g))"
  shows "\<exists>e. Validate dec (Zip fs) = Inl e"
proof (cases "Validate dec (Zip fs)")
  case (Inl e)
  then show ?thesis by blast
next
  case (Inr m)
  then have "\<exists>g \<in> set fs. is_main (Name g)"
    unfolding Validate_Inr by blast
  with assms show ?thesis by simp
qed

text \<open>
  C3.  When \<open>Validate\<close> fails on an archive, \<open>Load\<close> returns that error (wrapped) and the
  runner, its registry included, is as before.  An archive with no entry named \<open>main\<close> or
  \<open>main.exe\<close> is such an archive.
\<close>

theorem Load_failure_keeps_registry:
  "(Validate dec bin = Inl e \<longrightarrow> Load dec w bin = (w, Inl (WithCtx e)))
   \<and> (\<not> (\<exists>g \<in> set fs. is_main (Name g)) \<longrightarrow>
        (\<exists>e'. Validate dec (Zip fs) = Inl e' \<and> Load dec w (Zip fs) = (w, Inl (WithCtx e'))))"
proof (intro conjI impI)
  assume "Validate dec bin = Inl e"
  then show "Load dec w bin = (w, Inl (WithCtx e))"
    by (simp add: Load_def)
next
  assume "\<not> (\<exists>g \<in> set fs. is_main (Name g))"
  then obtain e' where e': "Validate dec (Zip fs) = Inl e'"
    using Validate_no_main_fails by blast
  then have "Load dec w (Zip fs) = (w, Inl (WithCtx e'))"
    by (simp add: Load_def)
  with e' show "\<exists>e'. Validate dec (Zip fs) = Inl e' \<and> Load dec w (Zip fs) = (w, Inl (WithCtx e'))"
    by blast
qed

theorem Load_failure_keeps_registry_witness:
  "Load demo_dec demo_world (Zip [demo_manifest_file])
     = (demo_world,
        Inl (WithCtx (Wrap (New ''plugin archive missing main executable'')
                        ''plugin binary missing'')))"
  using conjunct1 [OF Load_failure_keeps_registry
      [of demo_dec "Zip [demo_manifest_file]" _ demo_world]]
    demo_Validate_no_main
  by blast

section \<open>Extraction stays inside the working directory\<close>

lemma mkdir_chain_keeps:
  "mkdir_chain fs ds = (fs', r) \<Longrightarrow> fs p \<noteq> None \<Longrightarrow> fs' p = fs p"
proof (induction ds arbitrary: fs)
  case Nil
  then show ?case by simp
next
  case (Cons d ds)
  show ?case
  proof (cases "is_dir fs d")
    case True
    with Cons show ?thesis by simp
  next
    case False
    show ?thesis
    proof (cases "fs d")
      case None
      then have "mkdir_chain (fs(d \<mapsto> DirNode)) ds = (fs', r)"
        using Cons.prems(1) False by simp
      moreover have "(fs(d \<mapsto> DirNode)) p \<noteq> None" using Cons.prems(2) by simp
      ultimately have "fs' p = (fs(d \<mapsto> DirNode)) p" by (rule Cons.IH)
      moreover have "p \<noteq> d" using None Cons.prems(2) by auto
      ultimately show ?thesis by simp
    next
      case (Some n)
      then show ?thesis using Cons.prems(1) False by simp
    qed
  qed
qed

lemma mkdir_chain_changes:
  "mkdir_chain fs ds = (fs', r) \<Longrightarrow> fs' p \<noteq> fs p
     \<Longrightarrow> p \<in> set ds \<and> \<not> is_dir fs p \<and> fs' p = Some DirNode"
proof (induction ds arbitrary: fs)
  case Nil
  then show ?case by simp
next
  case (Cons d ds)
  show ?case
  proof (cases "is_dir fs d")
    case True
    with Cons show ?thesis by simp
  next
    case False
    show ?thesis
    proof (cases "fs d")
      case None
      then have rec: "mkdir_chain (fs(d \<mapsto> DirNode)) ds = (fs', r)"
        using Cons.prems(1) False by simp
      show ?thesis
      proof (cases "p = d")
        case True
        have "fs' d = (fs(d \<mapsto> DirNode)) d"
          by (rule mkdir_chain_keeps [OF rec]) simp
        then show ?thesis using True False by simp
      next
        case False
        then have "fs' p \<noteq> (fs(d \<mapsto> DirNode)) p" using Cons.prems(2) by simp
        from Cons.IH [OF rec this] False show ?thesis
          by (auto simp: is_dir_def)
      qed
    next
      case (Some n)
      then show ?thesis using Cons.prems False by simp
    qed
  qed
qed

lemma MkdirAll_changes:
  assumes "os_MkdirAll fs q = (fs', r)" and "fs' p \<noteq> fs p"
  shows "p \<in> set (ancestors q @ [q])" and "\<not> is_dir fs p" and "fs' p = Some DirNode"
  using mkdir_chain_changes [OF assms [unfolded os_MkdirAll_def]] by simp_all

lemma MkdirAll_keeps:
  "os_MkdirAll fs q = (fs', r) \<Longrightarrow> fs p \<noteq> None \<Longrightarrow> fs' p = fs p"
  unfolding os_MkdirAll_def by (rule mkdir_chain_keeps)

lemma OpenFile_changes:
  assumes "os_OpenFile fs q mode = (fs', r)" and "fs' p \<noteq> fs p"
  shows "p = q" and "\<not> is_dir fs q" and "\<exists>m c. fs' p = Some (FileNode m c)"
  using assms
  by (auto simp: os_OpenFile_def split: if_splits option.splits node.splits)

lemma io_Copy_changes:
  assumes "io_Copy fs q b = (fs', r)" and "fs' p \<noteq> fs p"
  shows "p = q" and "\<exists>m c. fs q = Some (FileNode m c)" and "\<exists>m c. fs' p = Some (FileNode m c)"
  using assms
  by (auto simp: io_Copy_def write_file_def split: zip_body.splits option.splits node.splits
      if_splits)

lemma is_dir_cases: "is_dir fs p \<longleftrightarrow> p = ''/'' \<or> p = ''.'' \<or> fs p = Some DirNode"
  by (simp add: is_dir_def)

lemma is_dir_mono:
  assumes "\<And>p. fs p = Some DirNode \<Longrightarrow> fs' p = Some DirNode" and "is_dir fs p"
  shows "is_dir fs' p"
  using assms unfolding is_dir_cases by blast

lemma workdir_ready_mono:
  assumes "\<And>p. fs p = Some DirNode \<Longrightarrow> fs' p = Some DirNode" and "workdir_ready wd fs"
  shows "workdir_ready wd fs'"
  using assms is_dir_mono [of fs fs']
  unfolding workdir_ready_def list_all_iff by blast

lemma chain_ok:
  assumes "workdir_ready wd fs" and "inside wd t \<or> t = wd"
    and "p \<in> set (ancestors t @ [t])"
  shows "is_dir fs p \<or> inside wd p"
proof -
  have wd: "is_dir fs wd" and anc: "\<And>a. a \<in> set (ancestors wd) \<Longrightarrow> is_dir fs a"
    using assms(1) unfolding workdir_ready_def list_all_iff is_dir_cases by auto
  show ?thesis
  proof (cases "t = wd")
    case True
    then have "p \<in> set (ancestors wd) \<or> p = wd" using assms(3) by auto
    then show ?thesis using wd anc by blast
  next
    case False
    then have ins: "prefix (wd @ ''/'') t" using assms(2) by (simp add: inside_def)
    show ?thesis
    proof (cases "p = t")
      case True
      then show ?thesis using ins by (simp add: inside_def)
    next
      case False
      then have "p \<in> set (ancestors t)" using assms(3) by auto
      from ancestors_inside [OF ins this] show ?thesis
        using wd anc unfolding inside_def by blast
    qed
  qed
qed

lemma dir_chain_ok:
  assumes "workdir_ready wd fs" and "inside wd t \<or> t = wd" and "t = filepath_Clean x"
    and "p \<in> set (ancestors (filepath_Dir t) @ [filepath_Dir t])"
  shows "is_dir fs p \<or> inside wd p"
proof -
  consider (anc) "filepath_Dir t \<in> set (ancestors t)"
    | (root) "filepath_Dir t = ''/''" | (dot) "filepath_Dir t = ''.''"
    using Dir_of_Clean [OF assms(3)] by blast
  then show ?thesis
  proof cases
    case anc
    have "p \<in> set (ancestors t)"
    proof (cases "p = filepath_Dir t")
      case True
      then show ?thesis using anc by simp
    next
      case False
      then have "p \<in> set (ancestors (filepath_Dir t))" using assms(4) by auto
      with anc show ?thesis by (rule ancestors_trans)
    qed
    then have "p \<in> set (ancestors t @ [t])" by simp
    with assms(1,2) show ?thesis by (rule chain_ok)
  next
    case root
    then have "p = ''/''" using assms(4) by simp
    then show ?thesis by (simp add: is_dir_def)
  next
    case dot
    then have "p = ''.''" using assms(4) by simp
    then show ?thesis by (simp add: is_dir_def)
  qed
qed

lemma joinWithin_Inr:
  assumes "joinWithin wd name = Inr t" and "wd \<noteq> []"
  shows "inside wd t \<or> t = wd" and "\<exists>x. t = filepath_Clean x"
  using assms
  by (auto simp: joinWithin_def inside_def Let_def split: if_splits)


lemma OpenFile_dirs:
  assumes "os_OpenFile fs q mode = (fs', r)" and "fs p = Some DirNode"
  shows "fs' p = Some DirNode"
proof (rule ccontr)
  assume "fs' p \<noteq> Some DirNode"
  then have ne: "fs' p \<noteq> fs p" using assms(2) by simp
  from OpenFile_changes(1,2) [OF assms(1) ne] assms(2) show False
    by (simp add: is_dir_def)
qed

lemma io_Copy_dirs:
  assumes "io_Copy fs q b = (fs', r)" and "fs p = Some DirNode"
  shows "fs' p = Some DirNode"
proof (rule ccontr)
  assume "fs' p \<noteq> Some DirNode"
  then have ne: "fs' p \<noteq> fs p" using assms(2) by simp
  from io_Copy_changes(1,2) [OF assms(1) ne] assms(2) show False
    by auto
qed

lemma MkdirAll_dirs:
  assumes "os_MkdirAll fs q = (fs', r)" and "fs p = Some DirNode"
  shows "fs' p = Some DirNode"
  using MkdirAll_keeps [OF assms(1), of p] assms(2) by simp

lemma extract_entry_escape:
  assumes "joinWithin wd (Name f) = Inl e"
  shows "extract_entry fs wd bp f = (fs, Inl e)"
  using assms by (simp add: extract_entry_def)

lemma extract_entry_phases:
  assumes "extract_entry fs wd bp f = (fs', r)" and "joinWithin wd (Name f) = Inr t"
  shows "(\<exists>e. os_MkdirAll fs t = (fs', e))
       \<or> (\<exists>fs1 e1. os_MkdirAll fs (filepath_Dir t) = (fs1, e1)
             \<and> (fs' = fs1
                \<or> (\<exists>mode fs2 e2. os_OpenFile fs1 t mode = (fs2, e2)
                      \<and> (fs' = fs2 \<or> (\<exists>e3. io_Copy fs2 t (Body f) = (fs', e3))))))"
proof (cases "IsDir f")
  case True
  obtain fs1 e1 where m: "os_MkdirAll fs t = (fs1, e1)" by (cases "os_MkdirAll fs t")
  then have "fs' = fs1"
    using assms True by (cases e1) (simp_all add: extract_entry_def)
  with m show ?thesis by blast
next
  case False
  obtain fs1 e1 where m: "os_MkdirAll fs (filepath_Dir t) = (fs1, e1)"
    by (cases "os_MkdirAll fs (filepath_Dir t)")
  show ?thesis
  proof (cases e1)
    case (Some e)
    then have "fs' = fs1" using assms False m by (simp add: extract_entry_def)
    with m show ?thesis by blast
  next
    case None
    show ?thesis
    proof (cases "\<exists>msg. Body f = OpenError msg")
      case True
      then have "fs' = fs1" using assms False m None by (auto simp: extract_entry_def)
      with m show ?thesis by blast
    next
      case nopen: False
      define mode where "mode = (if Mode f AND 0x49 = 0 \<and> is_main (Name f)
                                  then Mode f OR 0x1ED else Mode f)"
      obtain fs2 e2 where op: "os_OpenFile fs1 t mode = (fs2, e2)"
        by (cases "os_OpenFile fs1 t mode")
      obtain fs3 e3 where cp: "io_Copy fs2 t (Body f) = (fs3, e3)"
        by (cases "io_Copy fs2 t (Body f)")
      have "fs' = fs2 \<or> fs' = fs3"
        using assms False m None nopen op cp
        by (cases "Body f"; cases e2; cases e3)
          (simp_all add: extract_entry_def mode_def Let_def)
      with m op cp show ?thesis by blast
    qed
  qed
qed

lemma extract_entry_dirs:
  assumes "extract_entry fs wd bp f = (fs', r)" and "fs p = Some DirNode"
  shows "fs' p = Some DirNode"
proof (cases "joinWithin wd (Name f)")
  case (Inl e)
  then show ?thesis using assms extract_entry_escape [OF Inl, of fs bp] by simp
next
  case (Inr t)
  from extract_entry_phases [OF assms(1) Inr] show ?thesis
    using assms(2) by (metis MkdirAll_dirs OpenFile_dirs io_Copy_dirs)
qed

lemma extract_entry_confined:
  assumes "workdir_ready wd fs" and "extract_entry fs wd bp f = (fs', r)"
    and "fs' p \<noteq> fs p"
  shows "inside wd p"
proof (cases "joinWithin wd (Name f)")
  case (Inl e)
  then show ?thesis using assms extract_entry_escape [OF Inl, of fs bp] by simp
next
  case (Inr t)
  have wd: "wd \<noteq> []" and wdir: "fs wd = Some DirNode"
    using assms(1) by (simp_all add: workdir_ready_def)
  have t: "inside wd t \<or> t = wd" by (rule joinWithin_Inr(1) [OF Inr wd])
  obtain x where x: "t = filepath_Clean x" using joinWithin_Inr(2) [OF Inr wd] by blast
  from extract_entry_phases [OF assms(2) Inr]
  consider (dir) e where "os_MkdirAll fs t = (fs', e)"
    | (regular) fs1 e1 where "os_MkdirAll fs (filepath_Dir t) = (fs1, e1)"
        and "fs' = fs1
             \<or> (\<exists>mode fs2 e2. os_OpenFile fs1 t mode = (fs2, e2)
                   \<and> (fs' = fs2 \<or> (\<exists>e3. io_Copy fs2 t (Body f) = (fs', e3))))"
    by blast
  then show ?thesis
  proof cases
    case dir
    from MkdirAll_changes(1,2) [OF dir assms(3)] chain_ok [OF assms(1) t]
    show ?thesis by blast
  next
    case regular
    have step1: "inside wd p" if "fs1 p \<noteq> fs p"
      using MkdirAll_changes(1,2) [OF regular(1) that] dir_chain_ok [OF assms(1) t x]
      by blast
    have wdir1: "fs1 wd = Some DirNode" by (rule MkdirAll_dirs [OF regular(1) wdir])
    have tin: "inside wd t" if "t \<noteq> wd" using t that by simp
    show ?thesis
    proof (cases "fs' = fs1")
      case True
      then show ?thesis using step1 assms(3) by simp
    next
      case False
      then obtain mode fs2 e2 where op: "os_OpenFile fs1 t mode = (fs2, e2)"
        and rest: "fs' = fs2 \<or> (\<exists>e3. io_Copy fs2 t (Body f) = (fs', e3))"
        using regular(2) by blast
      have step2: "inside wd p" if "fs2 p \<noteq> fs1 p"
      proof -
        from OpenFile_changes(1,2) [OF op that] have "p = t" and "\<not> is_dir fs1 t" by simp_all
        then have "t \<noteq> wd" using wdir1 by (auto simp: is_dir_def)
        then show ?thesis using tin \<open>p = t\<close> by simp
      qed
      have wdir2: "fs2 wd = Some DirNode" by (rule OpenFile_dirs [OF op wdir1])
      show ?thesis
      proof (cases "fs' = fs2")
        case True
        then show ?thesis using step1 step2 assms(3) by metis
      next
        case False
        then obtain e3 where cp: "io_Copy fs2 t (Body f) = (fs', e3)" using rest by blast
        have step3: "inside wd p" if "fs' p \<noteq> fs2 p"
        proof -
          from io_Copy_changes(1,2) [OF cp that] have "p = t"
            and "\<exists>m c. fs2 t = Some (FileNode m c)" by simp_all
          then have "t \<noteq> wd" using wdir2 by auto
          then show ?thesis using tin \<open>p = t\<close> by simp
        qed
        show ?thesis using step1 step2 step3 assms(3) by metis
      qed
    qed
  qed
qed

lemma extract_loop_frame:
  assumes "workdir_ready wd fs" and "extract_loop fs wd bp zs = (fs', r)"
  shows "(\<forall>p. fs' p \<noteq> fs p \<longrightarrow> inside wd p) \<and> (\<forall>p. fs p = Some DirNode \<longrightarrow> fs' p = Some DirNode)"
  using assms
proof (induction zs arbitrary: fs bp)
  case Nil
  then show ?case by simp
next
  case (Cons f zs)
  obtain fs1 r1 where e: "extract_entry fs wd bp f = (fs1, r1)"
    by (cases "extract_entry fs wd bp f")
  have c1: "\<And>p. fs1 p \<noteq> fs p \<Longrightarrow> inside wd p"
    by (rule extract_entry_confined [OF Cons.prems(1) e])
  have d1: "\<And>p. fs p = Some DirNode \<Longrightarrow> fs1 p = Some DirNode"
    by (rule extract_entry_dirs [OF e])
  show ?case
  proof (cases r1)
    case (Inl err)
    then have "fs' = fs1" using Cons.prems(2) e by simp
    then show ?thesis using c1 d1 by blast
  next
    case (Inr bp1)
    then have l: "extract_loop fs1 wd bp1 zs = (fs', r)" using Cons.prems(2) e by simp
    have "workdir_ready wd fs1" using d1 Cons.prems(1) by (rule workdir_ready_mono)
    from Cons.IH [OF this l] c1 d1 show ?thesis by metis
  qed
qed


lemma is_dir_upd: "is_dir fs a \<Longrightarrow> is_dir (fs(k \<mapsto> DirNode)) a"
  unfolding is_dir_cases by auto

lemma MkdirTemp_cases:
  assumes "os_MkdirTemp fs tmp = (fs1, r)"
  shows "(r = Inr tmp \<and> fs1 = fs(tmp \<mapsto> DirNode) \<and> fs tmp = None \<and> workdir_ready tmp fs1)
     \<or> ((\<exists>e. r = Inl e) \<and> fs1 = fs)"
proof (cases "fs tmp = None \<and> tmp \<noteq> [] \<and> \<not> is_dir fs tmp \<and> list_all (is_dir fs) (ancestors tmp)")
  case True
  then have r: "r = Inr tmp" and fs1: "fs1 = fs(tmp \<mapsto> DirNode)"
    using assms unfolding os_MkdirTemp_def by simp_all
  have "list_all (is_dir fs1) (ancestors tmp)"
    using True unfolding fs1 list_all_iff by (blast intro: is_dir_upd)
  then have "workdir_ready tmp fs1"
    using True unfolding workdir_ready_def fs1 by simp
  with r fs1 True show ?thesis by blast
next
  case False
  then have "fs1 = fs" and "\<exists>e. r = Inl e"
    using assms unfolding os_MkdirTemp_def by auto
  then show ?thesis by blast
qed

lemma extractSDXArchive_frame:
  assumes "extractSDXArchive fs tmp bin = (fs', r)" and "fs' p \<noteq> fs p"
  shows "p = tmp \<or> inside tmp p" and "fs' tmp = Some DirNode"
proof -
  obtain zs where bin: "zip_NewReader bin = Inr zs"
    using assms by (cases "zip_NewReader bin") (auto simp: extractSDXArchive_def)
  obtain fs1 r1 where mt: "os_MkdirTemp fs tmp = (fs1, r1)" by (cases "os_MkdirTemp fs tmp")
  have ok: "r1 = Inr tmp \<and> fs1 = fs(tmp \<mapsto> DirNode) \<and> workdir_ready tmp fs1"
    using MkdirTemp_cases [OF mt] assms bin mt by (auto simp: extractSDXArchive_def)
  obtain fs2 r2 where l: "extract_loop fs1 tmp [] zs = (fs2, r2)"
    by (cases "extract_loop fs1 tmp [] zs")
  have fs': "fs' = fs2"
    using assms(1) bin mt ok l by (auto simp: extractSDXArchive_def split: sum.splits if_splits)
  from extract_loop_frame [OF _ l] ok
  have c: "\<And>q. fs2 q \<noteq> fs1 q \<Longrightarrow> inside tmp q"
    and d: "\<And>q. fs1 q = Some DirNode \<Longrightarrow> fs2 q = Some DirNode" by blast+
  show "fs' tmp = Some DirNode" using d [of tmp] ok fs' by simp
  show "p = tmp \<or> inside tmp p"
  proof (cases "p = tmp")
    case True
    then show ?thesis by simp
  next
    case False
    then have "fs1 p = fs p" using ok by simp
    then show ?thesis using c [of p] assms(2) fs' by simp
  qed
qed











section \<open>The dispatch loop and the start of a plugin\<close>

lemma dispatch_loop_append:
  "dispatch_loop C (evs @ evs') st =
     (case dispatch_loop C evs st of
        (st1, Running) \<Rightarrow> dispatch_loop C evs' st1
      | (st1, Returned r) \<Rightarrow> (st1, Returned r))"
  by (induction C evs st rule: dispatch_loop.induct) (simp_all split: option.splits)

lemma dispatch_loop_snoc_running:
  assumes "dispatch_loop C evs st0 = (st, Running)"
  shows "dispatch_loop C (evs @ evs') st0 = dispatch_loop C evs' st"
  using assms by (simp add: dispatch_loop_append)

lemma handle_output_unknown:
  assumes "output \<noteq> []" and "hd output = CHR ''{''"
    and "decode_response C output = Some response"
    and "xid_FromString C (RespID response) = Some ident"
    and "pendingCommands (sess st) ident = None"
  shows "handle_output C output deliver st
           = handleError (New ''received response for unknown command'') st"
  using assms by (simp add: handle_output_def)

lemma handle_output_unparsable:
  assumes "output \<noteq> []" and "hd output = CHR ''{''"
    and "decode_response C output = Some response"
    and "xid_FromString C (RespID response) = None"
  shows "handle_output C output deliver st
           = handleError (Wrap (LibErr ''xid: invalid ID'') ''failed to parse response ID'') st"
  using assms by (simp add: handle_output_def)

text \<open>
  C6 (as amended).  While the dispatch loop runs, a frame that starts with \<open>{\<close> and
  decodes to a response whose correlation identifier has no entry in the table of
  pending commands leaves the loop running with the reported state \<open>errored\<close>; the
  error is logged.  The note is "received response for unknown command" when the
  identifier parses as an \<open>xid\<close>, and "failed to parse response ID" with the parser's
  error when it does not (such an identifier is the key of no entry, and the table is
  not consulted).
\<close>

theorem unmatched_response_moves_to_errored:
  assumes "dispatch_loop C evs st0 = (st, Running)"
    and "output \<noteq> []" and "hd output = CHR ''{''"
    and "decode_response C output = Some response"
    and "\<forall>ident. xid_FromString C (RespID response) = Some ident
           \<longrightarrow> pendingCommands (sess st) ident = None"
  shows "dispatch_loop C (evs @ [OutRecv (Some output) deliver]) st0
           = (st\<lparr>sess := (sess st)\<lparr>reportedState := ReportedStateError,
                   stateNote :=
                     (case xid_FromString C (RespID response) of
                        Some ident \<Rightarrow> ''received response for unknown command''
                      | None \<Rightarrow> ''failed to parse response ID: xid: invalid ID'')\<rparr>,
                logged := logged st
                  @ [LogError ''plugin error''
                       (case xid_FromString C (RespID response) of
                          Some ident \<Rightarrow> New ''received response for unknown command''
                        | None \<Rightarrow> Wrap (LibErr ''xid: invalid ID'')
                                    ''failed to parse response ID'')]\<rparr>,
              Running)"
proof -
  have loop: "dispatch_loop C (evs @ [OutRecv (Some output) deliver]) st0
          = (handle_output C output deliver st, Running)"
    using dispatch_loop_snoc_running [OF assms(1), of "[OutRecv (Some output) deliver]"]
    by simp
  show ?thesis
  proof (cases "xid_FromString C (RespID response)")
    case None
    have "handle_output C output deliver st
            = handleError (Wrap (LibErr ''xid: invalid ID'') ''failed to parse response ID'') st"
      by (rule handle_output_unparsable [OF assms(2-4) None])
    then show ?thesis
      unfolding loop None by (simp add: handleError_def setState_def)
  next
    case (Some ident)
    then have "pendingCommands (sess st) ident = None" using assms(5) by blast
    then have "handle_output C output deliver st
            = handleError (New ''received response for unknown command'') st"
      by (rule handle_output_unknown [OF assms(2-4) Some])
    then show ?thesis
      unfolding loop Some by (simp add: handleError_def setState_def)
  qed
qed

lemma handle_output_pending:
  assumes "output \<noteq> []" and "hd output = CHR ''{''"
    and "decode_response C output = Some response"
    and "xid_FromString C (RespID response) = Some ident"
    and "pendingCommands (sess st) ident = Some pending"
  shows "handle_output C output deliver st
           = st\<lparr>sess := (sess st)\<lparr>
                 pendingCommands := (pendingCommands (sess st))(ident := None),
                 channels := (if deliver \<or> \<not> cancelled (sess st)
                              then (channels (sess st))(respch pending :=
                                      channels (sess st) (respch pending) @ [response])
                              else channels (sess st))\<rparr>\<rparr>"
  using assms by (simp add: handle_output_def Let_def cancelled_def)

text \<open>
  C7.  While the dispatch loop runs, a frame whose correlation identifier has an entry in
  the table of pending commands removes exactly that entry in one step and appends the
  response to the command's response channel; the reported state is unchanged.  The
  channel is left as it was only if the context was cancelled.  A second frame with the
  same identifier finds no entry and delivers nothing.
\<close>

theorem matching_response_delivered_once:
  assumes "dispatch_loop C evs st0 = (st, Running)"
    and "output \<noteq> []" and "hd output = CHR ''{''"
    and "decode_response C output = Some response"
    and "xid_FromString C (RespID response) = Some ident"
    and "pendingCommands (sess st) ident = Some pending"
  shows "\<exists>st1 st2.
           dispatch_loop C (evs @ [OutRecv (Some output) deliver]) st0 = (st1, Running)
           \<and> pendingCommands (sess st1) = (pendingCommands (sess st))(ident := None)
           \<and> pendingCommands (sess st1) ident = None
           \<and> reportedState (sess st1) = reportedState (sess st)
           \<and> channels (sess st1) =
               (if deliver \<or> \<not> cancelled (sess st)
                then (channels (sess st))(respch pending :=
                        channels (sess st) (respch pending) @ [response])
                else channels (sess st))
           \<and> (channels (sess st1) (respch pending) = channels (sess st) (respch pending)
                \<longrightarrow> cancelled (sess st))
           \<and> dispatch_loop C (evs @ [OutRecv (Some output) deliver,
                                      OutRecv (Some output) deliver']) st0 = (st2, Running)
           \<and> channels (sess st2) = channels (sess st1)
           \<and> pendingCommands (sess st2) ident = None"
proof -
  define st1 where "st1 = handle_output C output deliver st"
  define st2 where "st2 = handle_output C output deliver' st1"
  have 1: "dispatch_loop C (evs @ [OutRecv (Some output) deliver]) st0 = (st1, Running)"
    using dispatch_loop_snoc_running [OF assms(1), of "[OutRecv (Some output) deliver]"]
    by (simp add: st1_def)
  have 2: "dispatch_loop C (evs @ [OutRecv (Some output) deliver,
                                    OutRecv (Some output) deliver']) st0 = (st2, Running)"
    using dispatch_loop_snoc_running [OF assms(1),
        of "[OutRecv (Some output) deliver, OutRecv (Some output) deliver']"]
    by (simp add: st1_def st2_def)
  have st1: "st1 = st\<lparr>sess := (sess st)\<lparr>
                 pendingCommands := (pendingCommands (sess st))(ident := None),
                 channels := (if deliver \<or> \<not> cancelled (sess st)
                              then (channels (sess st))(respch pending :=
                                      channels (sess st) (respch pending) @ [response])
                              else channels (sess st))\<rparr>\<rparr>"
    unfolding st1_def by (rule handle_output_pending [OF assms(2-6)])
  have p1: "pendingCommands (sess st1) ident = None" by (simp add: st1)
  have st2: "st2 = handleError (New ''received response for unknown command'') st1"
    unfolding st2_def by (rule handle_output_unknown [OF assms(2-5) p1])
  show ?thesis
    apply (rule exI [of _ st1], rule exI [of _ st2], intro conjI)
            apply (rule 1)
           apply (simp add: st1)
          apply (rule p1)
         apply (simp add: st1)
        apply (simp add: st1)
       apply (simp add: st1)
      apply (rule 2)
     apply (simp add: st2 handleError_def setState_def)
    apply (simp add: st2 handleError_def setState_def p1)
    done
qed

lemma exit_then_recv:
  assumes "errCh st = None"
  shows "dispatch_loop C [ProcExited waitErr, ErrRecv] st =
     (if stopping (sess st)
      then (st\<lparr>sess := setState ReportedStateInactive [] (sess st)\<rparr>, Returned None)
      else (let e = (case waitErr of
                       Some m \<Rightarrow> Wrap (LibErr m) ''process exited''
                     | None \<Rightarrow> New ''plugin exited unexpectedly'')
            in (handleError e st, Returned (Some e))))"
  using assms
  by (cases st) (simp add: exit_watcher_def sendErr_def handleError_def split: option.splits)

lemma exit_then_recv_occupied:
  assumes "errCh st = Some v"
  shows "dispatch_loop C [ProcExited waitErr, ErrRecv] st =
     (case v of
        None \<Rightarrow>
          (st\<lparr>sess := setState ReportedStateInactive [] (sess st), errCh := None\<rparr>,
           Returned None)
      | Some e0 \<Rightarrow> (handleError e0 (st\<lparr>errCh := None\<rparr>), Returned (Some e0)))"
  using assms
  by (cases st) (simp add: exit_watcher_def sendErr_def split: option.splits)

text \<open>
  C5.  What the termination of the process, followed by the loop's receive from the
  error channel, does to a running session.  With the error channel empty it is what the
  claim says: the loop ends with the reported state \<open>inactive\<close> and no error when the
  flag \<open>stopping\<close> was set, and with the reported state \<open>errored\<close> and the text of
  the exit error as note when it was not.  With an error of a pump already in the
  channel, the exit watcher's message is dropped and the loop ends with the reported
  state \<open>errored\<close> and that error as note, also when the flag \<open>stopping\<close> was set:
  there the code departs from the claim.
\<close>

theorem exit_then_receive_decides_state:
  assumes "dispatch_loop C evs st0 = (st, Running)"
  shows "(errCh st = None \<and> stopping (sess st) \<longrightarrow>
            (\<exists>st1. dispatch_loop C (evs @ [ProcExited waitErr, ErrRecv]) st0 = (st1, Returned None)
               \<and> reportedState (sess st1) = ReportedStateInactive))
       \<and> (errCh st = None \<and> \<not> stopping (sess st) \<longrightarrow>
            (\<exists>st1 e. dispatch_loop C (evs @ [ProcExited waitErr, ErrRecv]) st0
                         = (st1, Returned (Some e))
               \<and> e = (case waitErr of
                         Some m \<Rightarrow> Wrap (LibErr m) ''process exited''
                       | None \<Rightarrow> New ''plugin exited unexpectedly'')
               \<and> reportedState (sess st1) = ReportedStateError
               \<and> stateNote (sess st1) = Error e))
       \<and> (\<forall>e0. errCh st = Some (Some e0) \<longrightarrow>
            (\<exists>st1. dispatch_loop C (evs @ [ProcExited waitErr, ErrRecv]) st0
                       = (st1, Returned (Some e0))
               \<and> reportedState (sess st1) = ReportedStateError
               \<and> stateNote (sess st1) = Error e0
               \<and> stopping (sess st1) = stopping (sess st)))
       \<and> (errCh st = Some None \<longrightarrow>
            (\<exists>st1. dispatch_loop C (evs @ [ProcExited waitErr, ErrRecv]) st0 = (st1, Returned None)
               \<and> reportedState (sess st1) = ReportedStateInactive))"
proof -
  have loop: "dispatch_loop C (evs @ [ProcExited waitErr, ErrRecv]) st0
          = dispatch_loop C [ProcExited waitErr, ErrRecv] st"
    by (rule dispatch_loop_snoc_running [OF assms(1)])
  have 1: "errCh st = None \<and> stopping (sess st) \<longrightarrow>
            (\<exists>st1. dispatch_loop C (evs @ [ProcExited waitErr, ErrRecv]) st0 = (st1, Returned None)
               \<and> reportedState (sess st1) = ReportedStateInactive)"
  proof
    assume a: "errCh st = None \<and> stopping (sess st)"
    then show "\<exists>st1. dispatch_loop C (evs @ [ProcExited waitErr, ErrRecv]) st0
                        = (st1, Returned None)
               \<and> reportedState (sess st1) = ReportedStateInactive"
      unfolding loop using exit_then_recv [of st C waitErr] by (simp add: setState_def)
  qed
  have 2: "errCh st = None \<and> \<not> stopping (sess st) \<longrightarrow>
            (\<exists>st1 e. dispatch_loop C (evs @ [ProcExited waitErr, ErrRecv]) st0
                         = (st1, Returned (Some e))
               \<and> e = (case waitErr of
                         Some m \<Rightarrow> Wrap (LibErr m) ''process exited''
                       | None \<Rightarrow> New ''plugin exited unexpectedly'')
               \<and> reportedState (sess st1) = ReportedStateError
               \<and> stateNote (sess st1) = Error e)"
  proof
    assume a: "errCh st = None \<and> \<not> stopping (sess st)"
    then show "\<exists>st1 e. dispatch_loop C (evs @ [ProcExited waitErr, ErrRecv]) st0
                         = (st1, Returned (Some e))
               \<and> e = (case waitErr of
                         Some m \<Rightarrow> Wrap (LibErr m) ''process exited''
                       | None \<Rightarrow> New ''plugin exited unexpectedly'')
               \<and> reportedState (sess st1) = ReportedStateError
               \<and> stateNote (sess st1) = Error e"
      unfolding loop using exit_then_recv [of st C waitErr]
      by (simp add: Let_def setState_def handleError_def)
  qed
  have 3: "\<forall>e0. errCh st = Some (Some e0) \<longrightarrow>
            (\<exists>st1. dispatch_loop C (evs @ [ProcExited waitErr, ErrRecv]) st0
                       = (st1, Returned (Some e0))
               \<and> reportedState (sess st1) = ReportedStateError
               \<and> stateNote (sess st1) = Error e0
               \<and> stopping (sess st1) = stopping (sess st))"
  proof (intro allI impI)
    fix e0
    assume a: "errCh st = Some (Some e0)"
    show "\<exists>st1. dispatch_loop C (evs @ [ProcExited waitErr, ErrRecv]) st0
                       = (st1, Returned (Some e0))
               \<and> reportedState (sess st1) = ReportedStateError
               \<and> stateNote (sess st1) = Error e0
               \<and> stopping (sess st1) = stopping (sess st)"
      unfolding loop exit_then_recv_occupied [OF a]
      by (simp add: setState_def handleError_def)
  qed
  have 4: "errCh st = Some None \<longrightarrow>
            (\<exists>st1. dispatch_loop C (evs @ [ProcExited waitErr, ErrRecv]) st0 = (st1, Returned None)
               \<and> reportedState (sess st1) = ReportedStateInactive)"
  proof
    assume a: "errCh st = Some None"
    show "\<exists>st1. dispatch_loop C (evs @ [ProcExited waitErr, ErrRecv]) st0
                        = (st1, Returned None)
               \<and> reportedState (sess st1) = ReportedStateInactive"
      unfolding loop exit_then_recv_occupied [OF a] by (simp add: setState_def)
  qed
  from 1 2 3 4 show ?thesis by (intro conjI)
qed

lemma runProcess_active:
  assumes "reportedState s = ReportedStateActive"
  shows "runProcess C P fs s = (fs, s, [], Returned (Some (New ''plugin is already running'')))"
  using assms by (simp add: runProcess_def)

text \<open>
  C4 (as amended).  \<open>StartPlugin\<close> on a session whose reported state is \<open>active\<close>
  returns nil to its caller; \<open>runProcess\<close>, started in its own goroutine, fails with
  "plugin is already running", which is logged; the session, its reported state
  included, and the rest of the runner are unchanged.
\<close>

theorem StartPlugin_on_active_session:
  assumes "sessions w k = Some s" and "reportedState s = ReportedStateActive"
  shows "StartPlugin C P w k
           = (w\<lparr>logs := logs w
                   @ [LogError ''plugin start failed'' (New ''plugin is already running'')]\<rparr>,
              None)"
proof -
  have "(sessions w)(k \<mapsto> s) = sessions w"
    using assms(1) by (simp add: fun_upd_idem_iff)
  then show ?thesis
    using assms by (simp add: StartPlugin_def runProcess_active)
qed

lemma runProcess_extract_failed:
  assumes "reportedState s \<noteq> ReportedStateActive" and "runType s = RunTypeBackground"
    and "extractSDXArchive fs (tmpname P) (sbin s) = (fs1, Inl e)"
  shows "runProcess C P fs s
           = (fs1, s\<lparr>sctx := Some True\<rparr>, [],
              Returned (Some (Wrap e ''failed to extract plugin'')))"
  using assms by (simp add: runProcess_def)

lemma demo_run_state_loop: "dispatch_loop demo_codec [] demo_run_state = (demo_run_state, Running)"
  by simp

lemma demo_frame_c1:
  "''{id:c1}'' \<noteq> []" "hd ''{id:c1}'' = CHR ''{''"
  "decode_response demo_codec ''{id:c1}'' = Some \<lparr>RespID = ''c1'', Result = ''ok''\<rparr>"
  "xid_FromString demo_codec (RespID \<lparr>RespID = ''c1'', Result = ''ok''\<rparr>) = Some ''c1''"
  "pendingCommands (sess demo_run_state) ''c1''
     = Some \<lparr>request = \<lparr>Method = ''ping'', Params = []\<rparr>, respch = 0\<rparr>"
  by (simp_all add: demo_codec_def demo_run_state_def demo_active_def demo_session_def)

lemma strict_run_state_loop:
  "dispatch_loop strict_codec [] demo_run_state = (demo_run_state, Running)"
  by simp

lemma strict_frame_unknown:
  "''{id:9m4e2mr0ui3e8a215n4g}'' \<noteq> []" "hd ''{id:9m4e2mr0ui3e8a215n4g}'' = CHR ''{''"
  "decode_response strict_codec ''{id:9m4e2mr0ui3e8a215n4g}''
     = Some \<lparr>RespID = ''9m4e2mr0ui3e8a215n4g'', Result = ''ok''\<rparr>"
  "xid_FromString strict_codec (RespID \<lparr>RespID = ''9m4e2mr0ui3e8a215n4g'', Result = ''ok''\<rparr>)
     = Some ''9m4e2mr0ui3e8a215n4g''"
  "pendingCommands (sess demo_run_state) ''9m4e2mr0ui3e8a215n4g'' = None"
  by code_simp+

lemma strict_frame_unparsable:
  "''{id:c9}'' \<noteq> []" "hd ''{id:c9}'' = CHR ''{''"
  "decode_response strict_codec ''{id:c9}'' = Some \<lparr>RespID = ''c9'', Result = ''ok''\<rparr>"
  "xid_FromString strict_codec (RespID \<lparr>RespID = ''c9'', Result = ''ok''\<rparr>) = None"
  by code_simp+

theorem unmatched_response_moves_to_errored_witness:
  "dispatch_loop strict_codec ([] @ [OutRecv (Some ''{id:9m4e2mr0ui3e8a215n4g}'') True])
       demo_run_state
     = (demo_run_state\<lparr>sess := (sess demo_run_state)\<lparr>reportedState := ReportedStateError,
                                   stateNote := ''received response for unknown command''\<rparr>,
                logged := logged demo_run_state
                  @ [LogError ''plugin error'' (New ''received response for unknown command'')]\<rparr>,
        Running)
   \<and> dispatch_loop strict_codec ([] @ [OutRecv (Some ''{id:c9}'') True]) demo_run_state
     = (demo_run_state\<lparr>sess := (sess demo_run_state)\<lparr>reportedState := ReportedStateError,
                           stateNote := ''failed to parse response ID: xid: invalid ID''\<rparr>,
                logged := logged demo_run_state
                  @ [LogError ''plugin error''
                       (Wrap (LibErr ''xid: invalid ID'') ''failed to parse response ID'')]\<rparr>,
        Running)"
proof -
  have h1: "\<forall>ident. xid_FromString strict_codec
                      (RespID \<lparr>RespID = ''9m4e2mr0ui3e8a215n4g'', Result = ''ok''\<rparr>) = Some ident
              \<longrightarrow> pendingCommands (sess demo_run_state) ident = None"
    unfolding strict_frame_unknown(4) using strict_frame_unknown(5) by simp
  have h2: "\<forall>ident. xid_FromString strict_codec (RespID \<lparr>RespID = ''c9'', Result = ''ok''\<rparr>)
                      = Some ident
              \<longrightarrow> pendingCommands (sess demo_run_state) ident = None"
    unfolding strict_frame_unparsable(4) by simp
  note t1 = unmatched_response_moves_to_errored
    [OF strict_run_state_loop strict_frame_unknown(1-3) h1, of True,
      unfolded strict_frame_unknown(4) option.case]
  note t2 = unmatched_response_moves_to_errored
    [OF strict_run_state_loop strict_frame_unparsable(1-3) h2, of True,
      unfolded strict_frame_unparsable(4) option.case]
  from t1 t2 show ?thesis by (rule conjI)
qed

text \<open>
  C6 as stated fails: the frame decodes and its identifier \<open>c9\<close> has no entry in the
  table of pending commands, but it is not an \<open>xid\<close>; the reported state becomes
  \<open>errored\<close> with the note of the failed parse, not "received response for unknown
  command".
\<close>

theorem unparsable_identifier_note_counterexample:
  "decode_response strict_codec ''{id:c9}'' = Some \<lparr>RespID = ''c9'', Result = ''ok''\<rparr>
   \<and> pendingCommands (sess demo_run_state) ''c9'' = None
   \<and> (case dispatch_loop strict_codec [OutRecv (Some ''{id:c9}'') True] demo_run_state of
        (st, res) \<Rightarrow>
          res = Running
          \<and> reportedState (sess st) = ReportedStateError
          \<and> stateNote (sess st) = ''failed to parse response ID: xid: invalid ID''
          \<and> stateNote (sess st) \<noteq> ''received response for unknown command'')"
  by code_simp

theorem matching_response_delivered_once_witness:
  "\<exists>st1 st2.
     dispatch_loop demo_codec ([] @ [OutRecv (Some ''{id:c1}'') True]) demo_run_state
       = (st1, Running)
     \<and> pendingCommands (sess st1) ''c1'' = None
     \<and> channels (sess st1) 0 = [\<lparr>RespID = ''c1'', Result = ''ok''\<rparr>]
     \<and> dispatch_loop demo_codec
          ([] @ [OutRecv (Some ''{id:c1}'') True, OutRecv (Some ''{id:c1}'') True]) demo_run_state
       = (st2, Running)
     \<and> channels (sess st2) 0 = [\<lparr>RespID = ''c1'', Result = ''ok''\<rparr>]"
proof -
  from matching_response_delivered_once [OF demo_run_state_loop demo_frame_c1, of True True]
  obtain st1 st2 where
    1: "dispatch_loop demo_codec ([] @ [OutRecv (Some ''{id:c1}'') True]) demo_run_state
          = (st1, Running)"
    and 2: "pendingCommands (sess st1) ''c1'' = None"
    and 3: "channels (sess st1) =
               (if True \<or> \<not> cancelled (sess demo_run_state)
                then (channels (sess demo_run_state))
                       (respch \<lparr>request = \<lparr>Method = ''ping'', Params = []\<rparr>, respch = 0\<rparr> :=
                        channels (sess demo_run_state)
                          (respch \<lparr>request = \<lparr>Method = ''ping'', Params = []\<rparr>, respch = 0\<rparr>)
                        @ [\<lparr>RespID = ''c1'', Result = ''ok''\<rparr>])
                else channels (sess demo_run_state))"
    and 4: "dispatch_loop demo_codec
          ([] @ [OutRecv (Some ''{id:c1}'') True, OutRecv (Some ''{id:c1}'') True]) demo_run_state
       = (st2, Running)"
    and 5: "channels (sess st2) = channels (sess st1)"
    by blast
  have 6: "channels (sess st1) 0 = [\<lparr>RespID = ''c1'', Result = ''ok''\<rparr>]"
    unfolding 3 by (simp add: demo_run_state_def demo_active_def demo_session_def)
  show ?thesis
    using 1 2 4 5 6 by (intro exI [of _ st1] exI [of _ st2]) simp
qed

lemma demo_stopping_loop:
  "dispatch_loop demo_codec [StopRequested] demo_run_state
     = (demo_run_state\<lparr>sess := (sess demo_run_state)\<lparr>stopping := True\<rparr>\<rparr>, Running)"
  by simp

lemma demo_stop_then_write_fails:
  "dispatch_loop demo_codec [StopRequested, WriteFailed ''file already closed''] demo_run_state
     = (demo_run_state\<lparr>sess := (sess demo_run_state)\<lparr>stopping := True\<rparr>,
          errCh := Some (Some (Wrap (LibErr ''file already closed'')
                                 ''failed to write command''))\<rparr>,
        Running)"
  by (simp add: pump_failed_def cancelled_def sendErr_def demo_run_state_def demo_active_def
      demo_session_def)

theorem exit_then_receive_decides_state_witness:
  "(\<exists>st1. dispatch_loop demo_codec ([StopRequested] @ [ProcExited None, ErrRecv]) demo_run_state
            = (st1, Returned None)
        \<and> reportedState (sess st1) = ReportedStateInactive)
   \<and> (\<exists>st1. dispatch_loop demo_codec ([] @ [ProcExited None, ErrRecv]) demo_run_state
            = (st1, Returned (Some (New ''plugin exited unexpectedly'')))
        \<and> reportedState (sess st1) = ReportedStateError
        \<and> stateNote (sess st1) = ''plugin exited unexpectedly'')
   \<and> (\<exists>st1. dispatch_loop demo_codec
              ([StopRequested, WriteFailed ''file already closed'']
               @ [ProcExited (Some ''signal: killed''), ErrRecv]) demo_run_state
            = (st1, Returned (Some (Wrap (LibErr ''file already closed'')
                                      ''failed to write command'')))
        \<and> reportedState (sess st1) = ReportedStateError
        \<and> stateNote (sess st1) = ''failed to write command: file already closed''
        \<and> stopping (sess st1))"
proof -
  let ?sa = "demo_run_state\<lparr>sess := (sess demo_run_state)\<lparr>stopping := True\<rparr>\<rparr>"
  let ?e = "Wrap (LibErr ''file already closed'') ''failed to write command''"
  let ?sb = "demo_run_state\<lparr>sess := (sess demo_run_state)\<lparr>stopping := True\<rparr>,
               errCh := Some (Some ?e)\<rparr>"
  have e1: "errCh ?sa = None \<and> stopping (sess ?sa)"
    and e2: "errCh demo_run_state = None \<and> \<not> stopping (sess demo_run_state)"
    and e3: "errCh ?sb = Some (Some ?e)"
    and s3: "stopping (sess ?sb)"
    by (simp_all add: demo_run_state_def demo_active_def demo_session_def)
  from exit_then_receive_decides_state [OF demo_stopping_loop, of None] e1
  have a: "\<exists>st1. dispatch_loop demo_codec ([StopRequested] @ [ProcExited None, ErrRecv])
                    demo_run_state = (st1, Returned None)
        \<and> reportedState (sess st1) = ReportedStateInactive"
    by blast
  from exit_then_receive_decides_state [OF demo_run_state_loop, of None] e2
  have b: "\<exists>st1. dispatch_loop demo_codec ([] @ [ProcExited None, ErrRecv]) demo_run_state
            = (st1, Returned (Some (New ''plugin exited unexpectedly'')))
        \<and> reportedState (sess st1) = ReportedStateError
        \<and> stateNote (sess st1) = ''plugin exited unexpectedly''"
    by auto
  from exit_then_receive_decides_state
    [OF demo_stop_then_write_fails, of "Some ''signal: killed''"] e3
  obtain st1 where
    c1: "dispatch_loop demo_codec
              ([StopRequested, WriteFailed ''file already closed'']
               @ [ProcExited (Some ''signal: killed''), ErrRecv]) demo_run_state
            = (st1, Returned (Some ?e))"
    and c2: "reportedState (sess st1) = ReportedStateError"
    and c3: "stateNote (sess st1) = Error ?e"
    and c4: "stopping (sess st1) = stopping (sess ?sb)"
    by blast
  have c: "\<exists>st1. dispatch_loop demo_codec
              ([StopRequested, WriteFailed ''file already closed'']
               @ [ProcExited (Some ''signal: killed''), ErrRecv]) demo_run_state
            = (st1, Returned (Some ?e))
        \<and> reportedState (sess st1) = ReportedStateError
        \<and> stateNote (sess st1) = ''failed to write command: file already closed''
        \<and> stopping (sess st1)"
    using c1 c2 c3 c4 s3 by (intro exI [of _ st1]) simp
  from a b c show ?thesis by (intro conjI)
qed

lemma demo_active_world_session:
  "sessions demo_active_world ''p1'' = Some demo_active"
  "reportedState demo_active = ReportedStateActive"
  by (simp_all add: demo_active_world_def put_session_def demo_active_def)

theorem StartPlugin_on_active_session_witness:
  "StartPlugin demo_codec demo_penv demo_active_world ''p1''
     = (demo_active_world\<lparr>logs := logs demo_active_world
          @ [LogError ''plugin start failed'' (New ''plugin is already running'')]\<rparr>,
        None)"
  by (rule StartPlugin_on_active_session [OF demo_active_world_session])

text \<open>
  C4 as stated fails: the session is active, and the second \<open>StartPlugin\<close> returns nil
  to its caller, not the error.
\<close>

theorem StartPlugin_returns_nil_counterexample:
  "map_option reportedState (sessions demo_active_world ''p1'') = Some ReportedStateActive
   \<and> snd (StartPlugin demo_codec demo_penv demo_active_world ''p1'') = None"
  by code_simp

text \<open>
  C8.  When extraction fails, \<open>runProcess\<close> returns the error and the session is as
  before, but for its cancelled context: it does not become active.  The file system is
  the one the failed extraction left: when extraction changed anything, the working
  directory is still there, and no field of the session names it.
\<close>

theorem failed_extraction_aborts_without_cleanup:
  assumes "reportedState s \<noteq> ReportedStateActive" and "runType s = RunTypeBackground"
    and "extractSDXArchive fs (tmpname P) (sbin s) = (fs1, Inl e)"
  shows "runProcess C P fs s
           = (fs1, s\<lparr>sctx := Some True\<rparr>, [],
              Returned (Some (Wrap e ''failed to extract plugin'')))
       \<and> (fs1 \<noteq> fs \<longrightarrow> fs1 (tmpname P) = Some DirNode)"
proof (intro conjI impI)
  show "runProcess C P fs s
           = (fs1, s\<lparr>sctx := Some True\<rparr>, [],
              Returned (Some (Wrap e ''failed to extract plugin'')))"
    using assms by (rule runProcess_extract_failed)
  assume "fs1 \<noteq> fs"
  then obtain p where "fs1 p \<noteq> fs p" by blast
  then show "fs1 (tmpname P) = Some DirNode"
    using extractSDXArchive_frame(2) [OF assms(3)] by blast
qed

lemma demo_evil_extract:
  "snd (extractSDXArchive demo_fs (tmpname demo_penv) (sbin demo_evil_session))
     = Inl (New ''archive entry escapes extraction directory'')"
  "fst (extractSDXArchive demo_fs (tmpname demo_penv) (sbin demo_evil_session)) demo_tmp
     \<noteq> demo_fs demo_tmp"
  by code_simp+

theorem failed_extraction_aborts_without_cleanup_witness:
  "Validate demo_dec (sbin demo_evil_session) = Inr \<lparr>ID = ''p1'', Title = []\<rparr>
   \<and> runProcess demo_codec demo_penv demo_fs demo_evil_session
       = (fst (extractSDXArchive demo_fs (tmpname demo_penv) (sbin demo_evil_session)),
          demo_evil_session\<lparr>sctx := Some True\<rparr>, [],
          Returned (Some (Wrap (New ''archive entry escapes extraction directory'')
                            ''failed to extract plugin'')))
   \<and> demo_fs demo_tmp = None
   \<and> fst (extractSDXArchive demo_fs (tmpname demo_penv) (sbin demo_evil_session)) demo_tmp
       = Some DirNode
   \<and> workdir (demo_evil_session\<lparr>sctx := Some True\<rparr>) = []"
proof -
  let ?x = "extractSDXArchive demo_fs (tmpname demo_penv) (sbin demo_evil_session)"
  have 1: "reportedState demo_evil_session \<noteq> ReportedStateActive"
    and 2: "runType demo_evil_session = RunTypeBackground"
    and w: "workdir (demo_evil_session\<lparr>sctx := Some True\<rparr>) = []"
    by (simp_all add: demo_evil_session_def demo_session_def)
  have 3: "?x = (fst ?x, Inl (New ''archive entry escapes extraction directory''))"
    using demo_evil_extract(1) by (cases ?x) simp
  have ne: "fst ?x \<noteq> demo_fs" using demo_evil_extract(2) by auto
  note t = failed_extraction_aborts_without_cleanup [OF 1 2 3, of demo_codec]
  have v: "Validate demo_dec (sbin demo_evil_session) = Inr \<lparr>ID = ''p1'', Title = []\<rparr>"
    by code_simp
  have n: "demo_fs demo_tmp = None" by code_simp
  have d: "fst ?x demo_tmp = Some DirNode"
    using t ne by (simp add: demo_penv_def demo_tmp_def)
  from v t n d w show ?thesis by blast
qed

section \<open>Unloading\<close>

lemma StopPlugin_sessions:
  assumes "sessions w k = Some s"
  shows "\<exists>s'. sessions (fst (StopPlugin stop E w k)) = (sessions w)(k \<mapsto> s')"
  using assms
  by (auto simp: StopPlugin_def put_session_def Let_def split: kill_result.splits option.splits)

lemma StopPlugin_files_logs:
  "files (fst (StopPlugin stop E w k)) = files w \<and> logs (fst (StopPlugin stop E w k)) = logs w"
  by (auto simp: StopPlugin_def put_session_def Let_def split: kill_result.splits option.splits)

lemma Unload_missing:
  assumes "sessions w k = None"
  shows "Unload stop E w k = (w, Some (New ''plugin session not found''))"
  using assms by (simp add: Unload_def)

lemma Unload_present:
  assumes "sessions w k = Some s"
  shows "snd (Unload stop E w k) = None"
    and "sessions (fst (Unload stop E w k)) = (sessions w)(k := None)"
proof -
  obtain w1 r where sp: "StopPlugin stop E w k = (w1, r)"
    by (cases "StopPlugin stop E w k")
  obtain s' where s': "sessions w1 = (sessions w)(k \<mapsto> s')"
    using StopPlugin_sessions [OF assms, of stop E] sp by auto
  show "snd (Unload stop E w k) = None"
    using assms sp by (simp add: Unload_def Let_def split: option.splits)
  show "sessions (fst (Unload stop E w k)) = (sessions w)(k := None)"
    using assms sp s' by (simp add: Unload_def Let_def split: option.splits)
qed

lemma Unload_logs_stop_error:
  assumes "sessions w k = Some s" and "snd (StopPlugin stop E w k) = Some e"
  shows "logs (fst (Unload stop E w k))
           = logs w @ [LogWarn ''failed to stop plugin during unload'' e]"
proof -
  obtain w1 where sp: "StopPlugin stop E w k = (w1, Some e)"
    using assms(2) by (cases "StopPlugin stop E w k") simp
  have "logs w1 = logs w"
    using StopPlugin_files_logs [of stop E w k] sp by simp
  then show ?thesis
    using assms(1) sp by (simp add: Unload_def Let_def)
qed

lemma StopPlugin_kill_failed:
  assumes "sessions w k = Some s" and "cmd s" and "\<not> proc_exited E" and "kill E = KillFailed m"
  shows "snd (StopPlugin stop E w k) = Some (Wrap (LibErr m) ''failed to stop plugin process'')"
  using assms by (simp add: StopPlugin_def Let_def)

text \<open>
  C10.  \<open>Unload\<close> of an identifier with a session returns nil and removes the entry from
  the registry, whatever \<open>StopPlugin\<close> returns (its error is logged as a warning), so
  that \<open>GetSession\<close> afterwards reports "plugin session not found"; \<open>Unload\<close> of an
  identifier with no session returns "plugin session not found" and changes nothing.
  The same holds for the WebAssembly runner.
\<close>

theorem Unload_removes_session:
  "(sessions w k = Some s \<longrightarrow>
      snd (Unload stop E w k) = None
      \<and> sessions (fst (Unload stop E w k)) = (sessions w)(k := None)
      \<and> GetSession (fst (Unload stop E w k)) k = Inl (New ''plugin session not found'')
      \<and> (\<forall>e. snd (StopPlugin stop E w k) = Some e \<longrightarrow>
            logs (fst (Unload stop E w k))
              = logs w @ [LogWarn ''failed to stop plugin during unload'' e]))
   \<and> (sessions w k = None \<longrightarrow>
        Unload stop E w k = (w, Some (New ''plugin session not found'')))
   \<and> (sessions w k = Some s \<longrightarrow>
        wazero_Unload stop w k = (w\<lparr>sessions := (sessions w)(k := None)\<rparr>, None)
        \<and> wazero_GetSession (fst (wazero_Unload stop w k)) k
            = Inl (New ''plugin session not found''))
   \<and> (sessions w k = None \<longrightarrow>
        wazero_Unload stop w k = (w, Some (New ''plugin session not found'')))"
proof (intro conjI impI allI)
  assume a: "sessions w k = Some s"
  show "snd (Unload stop E w k) = None" by (rule Unload_present(1) [OF a])
  show b: "sessions (fst (Unload stop E w k)) = (sessions w)(k := None)"
    by (rule Unload_present(2) [OF a])
  show "GetSession (fst (Unload stop E w k)) k = Inl (New ''plugin session not found'')"
    by (simp add: GetSession_def b)
  show "wazero_Unload stop w k = (w\<lparr>sessions := (sessions w)(k := None)\<rparr>, None)"
    using a by (simp add: wazero_Unload_def put_session_def)
  then show "wazero_GetSession (fst (wazero_Unload stop w k)) k
            = Inl (New ''plugin session not found'')"
    by (simp add: wazero_GetSession_def)
next
  fix e
  assume "sessions w k = Some s" and "snd (StopPlugin stop E w k) = Some e"
  then show "logs (fst (Unload stop E w k))
              = logs w @ [LogWarn ''failed to stop plugin during unload'' e]"
    by (rule Unload_logs_stop_error)
next
  assume "sessions w k = None"
  then show "Unload stop E w k = (w, Some (New ''plugin session not found''))"
    by (rule Unload_missing)
next
  assume "sessions w k = None"
  then show "wazero_Unload stop w k = (w, Some (New ''plugin session not found''))"
    by (simp add: wazero_Unload_def)
qed

lemma demo_stop_kill_fails:
  "snd (StopPlugin demo_stop demo_senv demo_active_world ''p1'')
     = Some (Wrap (LibErr ''operation not permitted'') ''failed to stop plugin process'')"
  by (rule StopPlugin_kill_failed [OF demo_active_world_session(1)])
    (simp_all add: demo_active_def demo_senv_def)

lemma demo_world_empty: "sessions demo_world ''p1'' = None"
  by (simp add: demo_world_def)

theorem Unload_removes_session_witness:
  "snd (Unload demo_stop demo_senv demo_active_world ''p1'') = None
   \<and> GetSession (fst (Unload demo_stop demo_senv demo_active_world ''p1'')) ''p1''
       = Inl (New ''plugin session not found'')
   \<and> logs (fst (Unload demo_stop demo_senv demo_active_world ''p1''))
       = logs demo_active_world
         @ [LogWarn ''failed to stop plugin during unload''
              (Wrap (LibErr ''operation not permitted'') ''failed to stop plugin process'')]
   \<and> Unload demo_stop demo_senv demo_world ''p1''
       = (demo_world, Some (New ''plugin session not found''))
   \<and> wazero_GetSession (fst (wazero_Unload demo_stop demo_active_world ''p1'')) ''p1''
       = Inl (New ''plugin session not found'')
   \<and> wazero_Unload demo_stop demo_world ''p1''
       = (demo_world, Some (New ''plugin session not found''))"
proof -
  note t1 = Unload_removes_session
    [of demo_active_world "''p1''" demo_active demo_stop demo_senv]
  note t2 = Unload_removes_session [of demo_world "''p1''" demo_active demo_stop demo_senv]
  show ?thesis
    using t1 t2 demo_active_world_session(1) demo_stop_kill_fails demo_world_empty
    by blast
qed

section \<open>Reconciliation by the manager\<close>

lemma recording_sel [simp]:
  "r_GetSession (recording_Runner R) (st, cs) k =
     (case r_GetSession R st k of (st1, x) \<Rightarrow> ((st1, cs @ [CallGetSession k]), x))"
  "r_Load (recording_Runner R) (st, cs) bin =
     (case r_Load R st bin of (st1, x) \<Rightarrow> ((st1, cs @ [CallLoad bin]), x))"
  "r_StartPlugin (recording_Runner R) (st, cs) k =
     (case r_StartPlugin R st k of (st1, x) \<Rightarrow> ((st1, cs @ [CallStartPlugin k]), x))"
  "r_StopPlugin (recording_Runner R) (st, cs) k =
     (case r_StopPlugin R st k of (st1, x) \<Rightarrow> ((st1, cs @ [CallStopPlugin k]), x))"
  by (simp_all add: recording_Runner_def)

lemma fst_wrap_ctx [simp]: "fst (wrap_ctx x) = fst x"
  by (cases x) (simp add: wrap_ctx_def split: option.splits)

lemma snd_wrap_ctx [simp]: "snd (wrap_ctx x) = map_option WithCtx (snd x)"
  by (cases x) (simp add: wrap_ctx_def split: option.splits)

lemma activate_existing:
  assumes "r_GetSession R st (ID (rec_Manifest rec)) = (st1, Inr s)"
  shows "fst (activatePlugin Q (recording_Runner R) (st, cs) rec)
           = (fst (r_StartPlugin R st1 (ID (rec_Manifest rec))),
              cs @ [CallGetSession (ID (rec_Manifest rec)), CallStartPlugin (ID (rec_Manifest rec))])"
  using assms by (simp add: activatePlugin_def split: prod.splits)

lemma activate_missing:
  assumes "r_GetSession R st (ID (rec_Manifest rec)) = (st1, Inl err)"
    and "q_LoadBinary Q (rec_ID rec) = Inr bin"
    and "r_Load R st1 bin = (st2, Inr s)"
  shows "fst (activatePlugin Q (recording_Runner R) (st, cs) rec)
           = (fst (r_StartPlugin R st2 (ID (rec_Manifest rec))),
              cs @ [CallGetSession (ID (rec_Manifest rec)), CallLoad bin,
                    CallStartPlugin (ID (rec_Manifest rec))])"
  using assms by (simp add: activatePlugin_def split: prod.splits)

lemma deactivate_calls:
  "fst (deactivatePlugin (recording_Runner R) (st, cs) rec)
     = (fst (r_StopPlugin R st (ID (rec_Manifest rec))),
        cs @ [CallStopPlugin (ID (rec_Manifest rec))])"
  by (simp add: deactivatePlugin_def split: prod.splits)

text \<open>
  C9.  For an identifier whose record can be read, the calls \<open>SetActiveState\<close> makes to
  the runner are: for \<open>active\<close>, \<open>GetSession\<close> and \<open>StartPlugin\<close> when the session
  exists, and \<open>GetSession\<close>, \<open>Load\<close> of the stored binary and \<open>StartPlugin\<close> when it
  does not; for \<open>inactive\<close>, \<open>StopPlugin\<close>; for any other desired state none, and the
  result is the error "unknown desired state".
\<close>

theorem SetActiveState_runner_calls:
  assumes "q_Get Q k = Inr rec"
  shows
   "(\<forall>st1 s. r_GetSession R st (ID (rec_Manifest rec)) = (st1, Inr s) \<longrightarrow>
        fst (SetActiveState Q (recording_Runner R) (st, []) k ActiveStateActive)
          = (fst (r_StartPlugin R st1 (ID (rec_Manifest rec))),
             [CallGetSession (ID (rec_Manifest rec)), CallStartPlugin (ID (rec_Manifest rec))]))
    \<and> (\<forall>st1 err bin st2 s.
          r_GetSession R st (ID (rec_Manifest rec)) = (st1, Inl err)
          \<and> q_LoadBinary Q (rec_ID rec) = Inr bin \<and> r_Load R st1 bin = (st2, Inr s) \<longrightarrow>
        fst (SetActiveState Q (recording_Runner R) (st, []) k ActiveStateActive)
          = (fst (r_StartPlugin R st2 (ID (rec_Manifest rec))),
             [CallGetSession (ID (rec_Manifest rec)), CallLoad bin,
              CallStartPlugin (ID (rec_Manifest rec))]))
    \<and> fst (SetActiveState Q (recording_Runner R) (st, []) k ActiveStateInactive)
          = (fst (r_StopPlugin R st (ID (rec_Manifest rec))),
             [CallStopPlugin (ID (rec_Manifest rec))])
    \<and> (\<forall>v. SetActiveState Q (recording_Runner R) (st, []) k (ActiveStateOther v)
          = ((st, []), Some (New ''unknown desired state'')))"
proof (intro conjI allI impI)
  fix st1 s
  assume "r_GetSession R st (ID (rec_Manifest rec)) = (st1, Inr s)"
  from activate_existing [OF this, of Q "[]"] assms
  show "fst (SetActiveState Q (recording_Runner R) (st, []) k ActiveStateActive)
          = (fst (r_StartPlugin R st1 (ID (rec_Manifest rec))),
             [CallGetSession (ID (rec_Manifest rec)), CallStartPlugin (ID (rec_Manifest rec))])"
    by (simp add: SetActiveState_def)
next
  fix st1 err bin st2 s
  assume "r_GetSession R st (ID (rec_Manifest rec)) = (st1, Inl err)
          \<and> q_LoadBinary Q (rec_ID rec) = Inr bin \<and> r_Load R st1 bin = (st2, Inr s)"
  then have "fst (activatePlugin Q (recording_Runner R) (st, []) rec)
           = (fst (r_StartPlugin R st2 (ID (rec_Manifest rec))),
              [] @ [CallGetSession (ID (rec_Manifest rec)), CallLoad bin,
                    CallStartPlugin (ID (rec_Manifest rec))])"
    using activate_missing [of R st rec st1 err Q bin st2 s "[]"] by blast
  with assms
  show "fst (SetActiveState Q (recording_Runner R) (st, []) k ActiveStateActive)
          = (fst (r_StartPlugin R st2 (ID (rec_Manifest rec))),
             [CallGetSession (ID (rec_Manifest rec)), CallLoad bin,
              CallStartPlugin (ID (rec_Manifest rec))])"
    by (simp add: SetActiveState_def)
next
  from deactivate_calls [of R st "[]" rec] assms
  show "fst (SetActiveState Q (recording_Runner R) (st, []) k ActiveStateInactive)
          = (fst (r_StopPlugin R st (ID (rec_Manifest rec))),
             [CallStopPlugin (ID (rec_Manifest rec))])"
    by (simp add: SetActiveState_def)
next
  fix v
  from assms
  show "SetActiveState Q (recording_Runner R) (st, []) k (ActiveStateOther v)
          = ((st, []), Some (New ''unknown desired state''))"
    by (simp add: SetActiveState_def)
qed

lemma demo_Validate_ok:
  "Validate demo_dec (Zip demo_files) = Inr \<lparr>ID = ''p1'', Title = []\<rparr>"
  unfolding Validate_Inr
  using demo_find_manifest(1) demo_manifest_body demo_has_main by blast

lemma demo_Load:
  "Load demo_dec demo_world (Zip demo_files)
     = (put_session ''p1'' demo_session demo_world, Inr demo_session)"
  by (simp add: Load_def demo_Validate_ok demo_session_def Let_def)

lemma demo_runner_facts:
  "q_Get demo_querier ''p1'' = Inr demo_record"
  "q_LoadBinary demo_querier (rec_ID demo_record) = Inr (Zip demo_files)"
  "ID (rec_Manifest demo_record) = ''p1''"
  "r_GetSession (sdx_Runner demo_dec demo_codec demo_stop demo_penv demo_senv) demo_world ''p1''
     = (demo_world, Inl (New ''plugin session not found''))"
  "r_GetSession (sdx_Runner demo_dec demo_codec demo_stop demo_penv demo_senv)
       demo_active_world ''p1''
     = (demo_active_world, Inr demo_active)"
  "r_Load (sdx_Runner demo_dec demo_codec demo_stop demo_penv demo_senv) demo_world
       (Zip demo_files)
     = (put_session ''p1'' demo_session demo_world, Inr demo_session)"
  by (simp_all add: demo_querier_def demo_record_def sdx_Runner_def GetSession_def
      demo_world_empty demo_active_world_session(1) demo_Load)

theorem SetActiveState_runner_calls_witness:
  "snd (fst (SetActiveState demo_querier
               (recording_Runner (sdx_Runner demo_dec demo_codec demo_stop demo_penv demo_senv))
               (demo_world, []) ''p1'' ActiveStateActive))
     = [CallGetSession ''p1'', CallLoad (Zip demo_files), CallStartPlugin ''p1'']
   \<and> snd (fst (SetActiveState demo_querier
               (recording_Runner (sdx_Runner demo_dec demo_codec demo_stop demo_penv demo_senv))
               (demo_active_world, []) ''p1'' ActiveStateActive))
     = [CallGetSession ''p1'', CallStartPlugin ''p1'']
   \<and> snd (fst (SetActiveState demo_querier
               (recording_Runner (sdx_Runner demo_dec demo_codec demo_stop demo_penv demo_senv))
               (demo_active_world, []) ''p1'' ActiveStateInactive))
     = [CallStopPlugin ''p1'']
   \<and> SetActiveState demo_querier
         (recording_Runner (sdx_Runner demo_dec demo_codec demo_stop demo_penv demo_senv))
         (demo_world, []) ''p1'' (ActiveStateOther ''paused'')
     = ((demo_world, []), Some (New ''unknown desired state''))"
proof -
  let ?R = "sdx_Runner demo_dec demo_codec demo_stop demo_penv demo_senv"
  note t1 = SetActiveState_runner_calls [OF demo_runner_facts(1), of ?R demo_world]
  note t2 = SetActiveState_runner_calls [OF demo_runner_facts(1), of ?R demo_active_world]
  have a: "fst (SetActiveState demo_querier (recording_Runner ?R) (demo_world, []) ''p1''
                  ActiveStateActive)
             = (fst (r_StartPlugin ?R (put_session ''p1'' demo_session demo_world)
                       (ID (rec_Manifest demo_record))),
                [CallGetSession (ID (rec_Manifest demo_record)), CallLoad (Zip demo_files),
                 CallStartPlugin (ID (rec_Manifest demo_record))])"
    using t1 demo_runner_facts(2,4,6) unfolding demo_runner_facts(3) by blast
  have b: "fst (SetActiveState demo_querier (recording_Runner ?R) (demo_active_world, []) ''p1''
                  ActiveStateActive)
             = (fst (r_StartPlugin ?R demo_active_world (ID (rec_Manifest demo_record))),
                [CallGetSession (ID (rec_Manifest demo_record)),
                 CallStartPlugin (ID (rec_Manifest demo_record))])"
    using t2 demo_runner_facts(5) unfolding demo_runner_facts(3) by blast
  have c: "fst (SetActiveState demo_querier (recording_Runner ?R) (demo_active_world, []) ''p1''
                  ActiveStateInactive)
             = (fst (r_StopPlugin ?R demo_active_world (ID (rec_Manifest demo_record))),
                [CallStopPlugin (ID (rec_Manifest demo_record))])"
    using t2 by blast
  have d: "SetActiveState demo_querier (recording_Runner ?R) (demo_world, []) ''p1''
             (ActiveStateOther ''paused'')
           = ((demo_world, []), Some (New ''unknown desired state''))"
    using t1 by blast
  show ?thesis
    unfolding a b c d by (simp add: demo_runner_facts(3))
qed

end
